theory Spec2Isabelle
  imports Main "HOL-Library.Word"
begin

section \<open>JavaScript strings\<close>

text \<open>
  A JavaScript string is a sequence of 16-bit code units. String literals of the source
  are written \<open>js ''...''\<close>.
\<close>

type_synonym jschar = "16 word"
type_synonym jsstring = "jschar list"

definition js :: "string \<Rightarrow> jsstring" where
  "js s = map (\<lambda>c. of_nat (of_char c)) s"

text \<open>
  The code units that \<^verbatim>\<open>String.prototype.trim\<close> strips and that the regular expression
  class \<^verbatim>\<open>\s\<close> matches (ECMAScript WhiteSpace and LineTerminator): the two sets are
  the same.
\<close>

definition is_ws :: "jschar \<Rightarrow> bool" where
  "is_ws c \<longleftrightarrow>
     c \<in> {0x09, 0x0A, 0x0B, 0x0C, 0x0D, 0x20, 0xA0, 0x1680, 0x2028, 0x2029, 0x202F,
          0x205F, 0x3000, 0xFEFF}
     \<or> (0x2000 \<le> c \<and> c \<le> 0x200A)"

text \<open>\<^verbatim>\<open>s.trim()\<close>\<close>

definition trim :: "jsstring \<Rightarrow> jsstring" where
  "trim s = rev (dropWhile is_ws (rev (dropWhile is_ws s)))"

text \<open>
  \<^verbatim>\<open>s.split(/\s+/)\<close>: the pieces between maximal runs of whitespace. A run at the start
  or at the end of the string leaves an empty piece there, and the empty string gives
  the one piece \<^verbatim>\<open>""\<close>.
\<close>

function split_ws :: "jsstring \<Rightarrow> jsstring list" where
  "split_ws s =
     (if dropWhile (\<lambda>c. \<not> is_ws c) s = [] then [s]
      else takeWhile (\<lambda>c. \<not> is_ws c) s
             # split_ws (dropWhile is_ws (dropWhile (\<lambda>c. \<not> is_ws c) s)))"
  by pat_completeness auto
termination
proof (relation "measure length")
  show "wf (measure length)" by simp
next
  fix s :: jsstring
  assume ne: "dropWhile (\<lambda>c. \<not> is_ws c) s \<noteq> []"
  define r where "r = dropWhile (\<lambda>c. \<not> is_ws c) s"
  from ne have "r \<noteq> []" by (simp add: r_def)
  then obtain c cs where r: "r = c # cs" by (cases r) auto
  have "is_ws (hd r)"
    using hd_dropWhile [OF ne] by (simp add: r_def)
  with r have "dropWhile is_ws r = dropWhile is_ws cs" by simp
  moreover have "length (dropWhile is_ws cs) \<le> length cs" by (rule length_dropWhile_le)
  moreover have "length r \<le> length s" unfolding r_def by (rule length_dropWhile_le)
  ultimately have "length (dropWhile is_ws r) < length s" using r by simp
  then show "(dropWhile is_ws (dropWhile (\<lambda>c. \<not> is_ws c) s), s) \<in> measure length"
    by (simp add: r_def)
qed

declare split_ws.simps [simp del]

text \<open>\<^verbatim>\<open>s.split(sep)\<close> for a separator string of one code unit.\<close>

fun split_on :: "jschar \<Rightarrow> jsstring \<Rightarrow> jsstring list" where
  "split_on sep [] = [[]]"
| "split_on sep (c # cs) =
     (if c = sep then [] # split_on sep cs
      else (case split_on sep cs of
              [] \<Rightarrow> [[c]]
            | t # ts \<Rightarrow> (c # t) # ts))"

text \<open>\<^verbatim>\<open>xs.join(sep)\<close>\<close>

fun join :: "jsstring \<Rightarrow> jsstring list \<Rightarrow> jsstring" where
  "join sep [] = []"
| "join sep [x] = x"
| "join sep (x # y # ys) = x @ sep @ join sep (y # ys)"

text \<open>
  \<^verbatim>\<open>s.replace(pat, rep)\<close> for a string pattern: only the first occurrence is replaced.
  (The replacement strings of the source hold no \<^verbatim>\<open>$\<close>.)
\<close>

fun replace_first :: "jsstring \<Rightarrow> jsstring \<Rightarrow> jsstring \<Rightarrow> jsstring" where
  "replace_first pat rep [] = (if pat = [] then rep else [])"
| "replace_first pat rep (c # cs) =
     (if take (length pat) (c # cs) = pat then rep @ drop (length pat) (c # cs)
      else c # replace_first pat rep cs)"

section \<open>Secret words: \<^verbatim>\<open>ui/src/lib/secrets.ts\<close>\<close>

definition passphraseToNetworkSeed :: "jsstring \<Rightarrow> jsstring" where
  "passphraseToNetworkSeed passphrase =
     js ''sharefeed-'' @ join (js ''-'') (split_ws (trim passphrase))"

definition networkSeedToPassphrase :: "jsstring \<Rightarrow> jsstring" where
  "networkSeedToPassphrase seed =
     join (js '' '') (split_on 0x2D (replace_first (js ''sharefeed-'') [] seed))"

text \<open>
  The result \<^verbatim>\<open>{ valid, error? }\<close> of \<^verbatim>\<open>validatePassphrase\<close>. The three error messages:
  \<^item> \<open>PassphraseRequired\<close>: \<^verbatim>\<open>Passphrase is required\<close>;
  \<^item> \<open>WrongWordCount n\<close>: \<^verbatim>\<open>Passphrase must be exactly 5 words (got n)\<close>;
  \<^item> \<open>EmptyWord\<close>: \<^verbatim>\<open>Each word must have at least one character\<close>.
\<close>

datatype passphrase_error = PassphraseRequired | WrongWordCount nat | EmptyWord

datatype validation = Valid | Invalid passphrase_error

definition validatePassphrase :: "jsstring \<Rightarrow> validation" where
  "validatePassphrase passphrase =
     (let trimmed = trim passphrase in
      if trimmed = [] then Invalid PassphraseRequired
      else
        let words = split_ws trimmed in
        if length words \<noteq> 5 then Invalid (WrongWordCount (length words))
        else if \<not> list_all (\<lambda>word. length word > 0) words then Invalid EmptyWord
        else Valid)"

definition isValidPassphrase :: "jsstring \<Rightarrow> bool" where
  "isValidPassphrase passphrase \<longleftrightarrow> validatePassphrase passphrase = Valid"

section \<open>Cell ids: \<^verbatim>\<open>ui/src/lib/holochain/networks.ts\<close>\<close>

text \<open>
  A \<^verbatim>\<open>CellId\<close> is the pair \<^verbatim>\<open>[DnaHash, AgentPubKey]\<close> of two \<^verbatim>\<open>Uint8Array\<close>s.
\<close>

type_synonym bytes = "8 word list"
type_synonym CellId = "bytes \<times> bytes"

subsection \<open>The two Base64 functions the source calls\<close>

text \<open>
  \<^verbatim>\<open>encodeHashToBase64\<close> is imported from \<^verbatim>\<open>@holochain/client\<close>: the letter \<^verbatim>\<open>u\<close>
  followed by the URL-safe Base64 text of the bytes (alphabet ending in \<^verbatim>\<open>-\<close> and
  \<^verbatim>\<open>_\<close>, no \<^verbatim>\<open>=\<close> padding). Three bytes give four characters; a last group of one
  byte gives two characters and a last group of two bytes gives three.
\<close>

definition b64url_alphabet :: jsstring where
  "b64url_alphabet =
     js ''ABCDEFGHIJKLMNOPQRSTUVWXYZabcdefghijklmnopqrstuvwxyz0123456789-_''"

definition b64_alphabet :: jsstring where
  "b64_alphabet =
     js ''ABCDEFGHIJKLMNOPQRSTUVWXYZabcdefghijklmnopqrstuvwxyz0123456789+/''"

fun b64_groups :: "nat list \<Rightarrow> nat list" where
  "b64_groups (a # b # c # rest) =
     [a div 4, (a mod 4) * 16 + b div 16, (b mod 16) * 4 + c div 64, c mod 64]
       @ b64_groups rest"
| "b64_groups [a, b] = [a div 4, (a mod 4) * 16 + b div 16, (b mod 16) * 4]"
| "b64_groups [a] = [a div 4, (a mod 4) * 16]"
| "b64_groups [] = []"

definition encodeHashToBase64 :: "bytes \<Rightarrow> jsstring" where
  "encodeHashToBase64 hash =
     js ''u'' @ map (\<lambda>n. b64url_alphabet ! n) (b64_groups (map unat hash))"

text \<open>
  \<^verbatim>\<open>atob\<close> is the browser's forgiving Base64 decoder: it drops ASCII whitespace, drops
  one or two trailing \<^verbatim>\<open>=\<close> when the length is a multiple of four, throws
  \<^verbatim>\<open>InvalidCharacterError\<close> when the remaining length is 1 modulo 4 or a character is
  outside the standard alphabet (ending in \<^verbatim>\<open>+\<close> and \<^verbatim>\<open>/\<close>), and otherwise returns the
  decoded bytes as a string of code units below 256.
\<close>

datatype js_error = InvalidCharacterError

fun index_of :: "'a \<Rightarrow> 'a list \<Rightarrow> nat option" where
  "index_of x [] = None"
| "index_of x (y # ys) = (if x = y then Some 0 else map_option Suc (index_of x ys))"

fun strip_padding :: "jsstring \<Rightarrow> jsstring" where
  "strip_padding d =
     (if length d mod 4 = 0 \<and> d \<noteq> [] \<and> last d = 0x3D then
        (if butlast d \<noteq> [] \<and> last (butlast d) = 0x3D then butlast (butlast d)
         else butlast d)
      else d)"

fun b64_bytes :: "nat list \<Rightarrow> nat list" where
  "b64_bytes (p # q # r # s # rest) =
     [p * 4 + q div 16, (q mod 16) * 16 + r div 4, (r mod 4) * 64 + s] @ b64_bytes rest"
| "b64_bytes [p, q, r] = [p * 4 + q div 16, (q mod 16) * 16 + r div 4]"
| "b64_bytes [p, q] = [p * 4 + q div 16]"
| "b64_bytes _ = []"

definition atob :: "jsstring \<Rightarrow> js_error + jsstring" where
  "atob data =
     (let d = strip_padding (filter (\<lambda>c. c \<notin> {0x09, 0x0A, 0x0C, 0x0D, 0x20}) data) in
      if length d mod 4 = 1 then Inl InvalidCharacterError
      else (case those (map (\<lambda>c. index_of c b64_alphabet) d) of
              None \<Rightarrow> Inl InvalidCharacterError
            | Some sextets \<Rightarrow> Inr (map of_nat (b64_bytes sextets))))"

text \<open>
  A code unit that is neither ASCII whitespace nor \<^verbatim>\<open>:\<close> nor \<^verbatim>\<open>=\<close>; every code unit
  that \<^verbatim>\<open>encodeHashToBase64\<close> writes is one.
\<close>

definition plain :: "jschar \<Rightarrow> bool" where
  "plain c \<longleftrightarrow> c \<notin> {0x09, 0x0A, 0x0C, 0x0D, 0x20, 0x3A, 0x3D}"

subsection \<open>\<^verbatim>\<open>cellIdToString\<close> and \<^verbatim>\<open>cellIdFromString\<close>\<close>

definition cellIdToString :: "CellId \<Rightarrow> jsstring" where
  "cellIdToString cellId =
     encodeHashToBase64 (fst cellId) @ js '':'' @ encodeHashToBase64 (snd cellId)"

text \<open>
  The destructuring \<^verbatim>\<open>const [dnaHash, agentPubKey] = cellIdString.split(':')\<close> leaves
  \<^verbatim>\<open>undefined\<close> in a name that has no piece, and \<^verbatim>\<open>atob\<close> reads \<^verbatim>\<open>undefined\<close> as the
  string \<^verbatim>\<open>"undefined"\<close>.
\<close>

definition piece :: "jsstring list \<Rightarrow> nat \<Rightarrow> jsstring" where
  "piece parts i = (if i < length parts then parts ! i else js ''undefined'')"

definition cellIdFromString :: "jsstring \<Rightarrow> js_error + CellId" where
  "cellIdFromString cellIdString =
     (let parts = split_on 0x3A cellIdString;
          dnaHash = piece parts 0;
          agentPubKey = piece parts 1
      in case atob dnaHash of
           Inl e \<Rightarrow> Inl e
         | Inr dnaText \<Rightarrow>
             (case atob agentPubKey of
                Inl e \<Rightarrow> Inl e
              | Inr agentText \<Rightarrow> Inr (map ucast dnaText, map ucast agentText)))"

section \<open>The partition registry: \<^verbatim>\<open>ui/src/lib/holochain/networks.ts\<close>\<close>

text \<open>
  \<^verbatim>\<open>NetworkLocalData\<close> is the record kept in local storage; a \<^verbatim>\<open>Network\<close> has the same
  four fields and \<^verbatim>\<open>cellId\<close> and \<^verbatim>\<open>isActive\<close> besides.
\<close>

record NetworkLocalData =
  cellIdString :: jsstring
  name :: jsstring
  passphrase :: jsstring
  joinedAt :: int

record Network = NetworkLocalData +
  cellId :: CellId
  isActive :: bool

text \<open>
  What the conductor reports: the fields of a \<^verbatim>\<open>ClonedCell\<close> that the source reads
  (\<open>network_seed\<close> is \<^verbatim>\<open>cloned.dna_modifiers?.network_seed\<close>, \<open>None\<close> when undefined),
  and \<^verbatim>\<open>appInfo.cell_info\<close>, keyed by role name.

  A \<^verbatim>\<open>CellInfo\<close> object comes from \<^verbatim>\<open>@holochain/client\<close> in one of two shapes. The
  keyed shape has the kind of the cell as its one key: \<^verbatim>\<open>{provisioned: cell}\<close>,
  \<^verbatim>\<open>{cloned: cell}\<close>, \<^verbatim>\<open>{stem: cell}\<close>. The tagged shape has the keys \<^verbatim>\<open>type\<close> and
  \<^verbatim>\<open>value\<close>: \<^verbatim>\<open>{type: 'provisioned', value: cell}\<close>, \<^verbatim>\<open>{type: 'cloned', value: cell}\<close>,
  \<^verbatim>\<open>{type: 'stem', value: cell}\<close>; it belongs to the versions of the library whose
  clone requests are tagged in the same way, \<^verbatim>\<open>{type: 'dna_hash', value: hash}\<close>, which
  is how \<^verbatim>\<open>disableNetwork\<close> and \<^verbatim>\<open>enableNetwork\<close> of this file write them.
\<close>

datatype ClonedCell =
  ClonedCell (cell_id: CellId) (cloned_name: jsstring) (network_seed: "jsstring option")

datatype CellInfo =
    Provisioned
  | Cloned ClonedCell
  | Stem
  | TypeProvisioned
  | TypeCloned ClonedCell
  | TypeStem

type_synonym AppInfo = "jsstring \<rightharpoonup> CellInfo list"

definition ROLE_NAME :: jsstring where
  "ROLE_NAME = js ''sharefeed''"

text \<open>\<^verbatim>\<open>a || b\<close> on strings: the empty string is falsy.\<close>

definition str_or :: "jsstring \<Rightarrow> jsstring \<Rightarrow> jsstring" where
  "str_or a b = (if a = [] then b else a)"

text \<open>The object literal that \<^verbatim>\<open>createNetwork\<close> and \<^verbatim>\<open>joinNetwork\<close> build.\<close>

definition newNetwork :: "CellId \<Rightarrow> jsstring \<Rightarrow> jsstring \<Rightarrow> int \<Rightarrow> Network" where
  "newNetwork cid nm pass now =
     \<lparr>cellIdString = cellIdToString cid, name = nm, passphrase = pass, joinedAt = now,
      cellId = cid, isActive = False\<rparr>"

text \<open>
  Local storage under the key \<^verbatim>\<open>sharefeed_networks\<close> is a list of records; a missing
  or unreadable value reads as the empty list (\<^verbatim>\<open>loadNetworksLocally\<close>).
\<close>

fun saveNetworkLocally :: "Network \<Rightarrow> NetworkLocalData list \<Rightarrow> NetworkLocalData list" where
  "saveNetworkLocally network data =
     (let localData = \<lparr>cellIdString = cellIdString network, name = name network,
                        passphrase = passphrase network, joinedAt = joinedAt network\<rparr>
      in case index_of (cellIdString network) (map cellIdString data) of
           Some existing \<Rightarrow> data[existing := localData]
         | None \<Rightarrow> data @ [localData])"

definition removeNetworkLocally :: "jsstring \<Rightarrow> NetworkLocalData list \<Rightarrow> NetworkLocalData list" where
  "removeNetworkLocally k data = filter (\<lambda>n. cellIdString n \<noteq> k) data"

fun updateNetworkName :: "jsstring \<Rightarrow> jsstring \<Rightarrow> NetworkLocalData list \<Rightarrow> NetworkLocalData list" where
  "updateNetworkName k nm [] = []"
| "updateNetworkName k nm (n # data) =
     (if cellIdString n = k then n\<lparr>name := nm\<rparr> # data
      else n # updateNetworkName k nm data)"

text \<open>
  \<^verbatim>\<open>createNetwork\<close> after \<^verbatim>\<open>createCloneCell\<close> has answered with the clone's cell id:
  \<open>generated\<close> is what \<^verbatim>\<open>generatePassphrase\<close> gave when no passphrase was passed, \<open>now\<close>
  is \<^verbatim>\<open>Date.now()\<close>. The result is the network and the new content of local storage.
\<close>

definition createNetworkApi ::
  "jsstring \<Rightarrow> jsstring option \<Rightarrow> jsstring \<Rightarrow> CellId \<Rightarrow> int \<Rightarrow> NetworkLocalData list
     \<Rightarrow> Network \<times> NetworkLocalData list" where
  "createNetworkApi nm pass generated cid now stored =
     (let finalPassphrase = (case pass of None \<Rightarrow> generated | Some p \<Rightarrow> str_or p generated);
          network = newNetwork cid nm finalPassphrase now
      in (network, saveNetworkLocally network stored))"

text \<open>\<^verbatim>\<open>joinNetwork\<close> likewise; the name defaults to \<^verbatim>\<open>Shared Feed\<close>.\<close>

definition joinNetworkApi ::
  "jsstring \<Rightarrow> jsstring option \<Rightarrow> CellId \<Rightarrow> int \<Rightarrow> NetworkLocalData list
     \<Rightarrow> Network \<times> NetworkLocalData list" where
  "joinNetworkApi pass nm cid now stored =
     (let network = newNetwork cid (case nm of None \<Rightarrow> js ''Shared Feed'' | Some n \<Rightarrow> n) pass now
      in (network, saveNetworkLocally network stored))"

text \<open>
  \<^verbatim>\<open>getNetworks\<close>: the loop over the reported cells, pushing one network for each cell
  that passes the test \<^verbatim>\<open>'cloned' in cell\<close>, which is a cell of the keyed shape
  \<^verbatim>\<open>{cloned: cell}\<close> and no other. \<open>now\<close> is \<^verbatim>\<open>Date.now()\<close>.
\<close>

definition mergeCloned :: "NetworkLocalData list \<Rightarrow> int \<Rightarrow> ClonedCell \<Rightarrow> Network" where
  "mergeCloned localData now cloned =
     (let k = cellIdToString (cell_id cloned);
          local = find (\<lambda>n. cellIdString n = k) localData;
          passphrase0 = (case local of None \<Rightarrow> [] | Some l \<Rightarrow> str_or (passphrase l) []);
          passphrase1 =
            (if passphrase0 = [] then
               (case network_seed cloned of
                  None \<Rightarrow> passphrase0
                | Some seed \<Rightarrow> if seed = [] then passphrase0 else networkSeedToPassphrase seed)
             else passphrase0)
      in \<lparr>cellIdString = k,
          name = str_or (case local of None \<Rightarrow> [] | Some l \<Rightarrow> name l)
                   (str_or (cloned_name cloned) (js ''Unnamed Network'')),
          passphrase = passphrase1,
          joinedAt = (case local of None \<Rightarrow> now
                      | Some l \<Rightarrow> if joinedAt l = 0 then now else joinedAt l),
          cellId = cell_id cloned,
          isActive = False\<rparr>)"

fun getNetworks_loop ::
  "NetworkLocalData list \<Rightarrow> int \<Rightarrow> CellInfo list \<Rightarrow> Network list \<Rightarrow> Network list" where
  "getNetworks_loop localData now [] networks = networks"
| "getNetworks_loop localData now (cell # cells) networks =
     (case cell of
        Cloned cloned \<Rightarrow>
          getNetworks_loop localData now cells (networks @ [mergeCloned localData now cloned])
      | _ \<Rightarrow> getNetworks_loop localData now cells networks)"

definition getNetworks :: "AppInfo option \<Rightarrow> NetworkLocalData list \<Rightarrow> int \<Rightarrow> Network list" where
  "getNetworks appInfo localData now =
     (case appInfo of
        None \<Rightarrow> []
      | Some info \<Rightarrow>
          (let cells = (case info ROLE_NAME of None \<Rightarrow> [] | Some cs \<Rightarrow> cs)
           in getNetworks_loop localData now cells []))"

text \<open>
  The cloned cells that the conductor reports, in the reported order and in whichever
  shape they come: what the spec's \<open>list()\<close> joins against the local records.
\<close>

fun reportedClonedCells :: "CellInfo list \<Rightarrow> ClonedCell list" where
  "reportedClonedCells [] = []"
| "reportedClonedCells (Cloned cloned # cells) = cloned # reportedClonedCells cells"
| "reportedClonedCells (TypeCloned cloned # cells) = cloned # reportedClonedCells cells"
| "reportedClonedCells (_ # cells) = reportedClonedCells cells"

text \<open>Whether a reported cell has the tagged shape \<^verbatim>\<open>{type, value}\<close>.\<close>

fun tagged :: "CellInfo \<Rightarrow> bool" where
  "tagged TypeProvisioned = True"
| "tagged (TypeCloned cloned) = True"
| "tagged TypeStem = True"
| "tagged _ = False"

section \<open>The session: connection, local storage and the two stores\<close>

text \<open>
  \<^verbatim>\<open>ShareFeedClient\<close> (\<^verbatim>\<open>ui/src/lib/holochain/client.ts\<close>): the fields \<^verbatim>\<open>roleName\<close> and
  \<^verbatim>\<open>zomeName\<close> of its constructor; the third field, \<^verbatim>\<open>client\<close>, is the connection. The
  class holds no cell id. Its members are the typed zome calls and \<^verbatim>\<open>callZome\<close>, and
  no others: it has no \<^verbatim>\<open>setCellId\<close>.
\<close>

record ShareFeedClient =
  roleName :: jsstring
  zomeName :: jsstring

definition ZOME_NAME :: jsstring where
  "ZOME_NAME = js ''sharefeed''"

text \<open>\<^verbatim>\<open>new ShareFeedClient(client)\<close>, as \<^verbatim>\<open>connect\<close> calls it: both names by default.\<close>

definition newShareFeedClient :: ShareFeedClient where
  "newShareFeedClient = \<lparr>roleName = ROLE_NAME, zomeName = ZOME_NAME\<rparr>"

text \<open>
  The request that \<^verbatim>\<open>callZome\<close> builds and hands to the connection (the payload is left
  out): it names the cell by the role, and has no field for a cell id.
\<close>

record AppCallZomeRequest =
  role_name :: jsstring
  zome_name :: jsstring
  fn_name :: jsstring

definition callZome :: "ShareFeedClient \<Rightarrow> jsstring \<Rightarrow> AppCallZomeRequest" where
  "callZome this fnName =
     \<lparr>role_name = roleName this, zome_name = zomeName this, fn_name = fnName\<rparr>"

definition getRecentShares :: "ShareFeedClient \<Rightarrow> AppCallZomeRequest" where
  "getRecentShares this = callZome this (js ''get_recent_shares'')"

text \<open>
  A value thrown by a call of a member that the object does not have; the engine words
  its message.
\<close>

datatype thrown = TypeError jsstring

text \<open>
  A call of \<^verbatim>\<open>client.getRecentShares()\<close> that has not answered yet: which function
  awaits it, the network id that function was called with, and the request that was
  sent.
\<close>

datatype fetch_kind = Foreground | Background

datatype fetch =
  Fetch (kind: fetch_kind) (captured: jsstring) (addressed: "AppCallZomeRequest option")

text \<open>
  How an awaited call ends: with the shares (\<^verbatim>\<open>shareInfos.map(toShareItem)\<close>), or with a
  thrown value, whose message is kept when it is an \<^verbatim>\<open>Error\<close>.
\<close>

datatype 'item outcome = Fulfilled "'item list" | Rejected "jsstring option"

definition message_or :: "jsstring option \<Rightarrow> jsstring \<Rightarrow> jsstring" where
  "message_or err fallback = (case err of Some m \<Rightarrow> m | None \<Rightarrow> fallback)"

text \<open>The state of \<^verbatim>\<open>createNetworksStore\<close>.\<close>

record NetworksStoreState =
  networks :: "Network list"
  activeNetworkId :: "jsstring option"
  loading :: bool
  error :: "jsstring option"

definition initialState :: NetworksStoreState where
  "initialState = \<lparr>networks = [], activeNetworkId = None, loading = False, error = None\<rparr>"

text \<open>
  The variables of \<^verbatim>\<open>createSharesStore\<close>: \<^verbatim>\<open>_shares\<close>, \<^verbatim>\<open>_loading\<close>, \<^verbatim>\<open>_error\<close>,
  \<^verbatim>\<open>_connected\<close>, \<^verbatim>\<open>_hasNetwork\<close>, \<^verbatim>\<open>_cache\<close>, \<^verbatim>\<open>_currentNetworkId\<close>, and whether
  \<^verbatim>\<open>client\<close> is set (it is then the one client of \<^verbatim>\<open>connection.ts\<close>).
\<close>

record 'item SharesStore =
  shares :: "'item list"
  s_loading :: bool
  s_error :: "jsstring option"
  connected :: bool
  hasNetwork :: bool
  cache :: "jsstring \<rightharpoonup> 'item list"
  currentNetworkId :: "jsstring option"
  s_client :: bool

text \<open>
  Everything the operations read and write: \<^verbatim>\<open>client\<close> and \<^verbatim>\<open>shareFeedClient\<close> of
  \<^verbatim>\<open>connection.ts\<close>, the two local-storage keys \<^verbatim>\<open>sharefeed_active_network\<close> and
  \<^verbatim>\<open>sharefeed_networks\<close>, the two stores, and the fetches that are in flight.
\<close>

record 'item world =
  appClient :: bool
  shareFeedClient :: "ShareFeedClient option"
  ls_active :: "jsstring option"
  ls_networks :: "NetworkLocalData list"
  nstore :: NetworksStoreState
  sstore :: "'item SharesStore"
  inflight :: "fetch list"

text \<open>
  The call \<^verbatim>\<open>client?.setCellId(c)\<close> of the networks store
  (\<^verbatim>\<open>stores/networks.ts\<close>, lines 100, 199 and 243), where \<^verbatim>\<open>client\<close> is \<^verbatim>\<open>getClient()\<close>.
  With no client the optional chain skips the call. With a client, \<^verbatim>\<open>client.setCellId\<close>
  is \<^verbatim>\<open>undefined\<close>, because the class has no such member, and calling it throws a
  \<^verbatim>\<open>TypeError\<close>; \<open>msg\<close> is the message the engine gives it.
\<close>

definition setCellId :: "jsstring \<Rightarrow> CellId option \<Rightarrow> ShareFeedClient option \<Rightarrow> thrown + unit" where
  "setCellId msg c client =
     (case client of None \<Rightarrow> Inr () | Some this \<Rightarrow> Inl (TypeError msg))"

text \<open>
  The request that \<^verbatim>\<open>client.getRecentShares()\<close> sends, \<open>None\<close> when there is no client.
\<close>

definition target :: "'item world \<Rightarrow> AppCallZomeRequest option" where
  "target w = map_option getRecentShares (shareFeedClient w)"

text \<open>A string or \<^verbatim>\<open>null\<close> used as a condition.\<close>

definition truthy :: "jsstring option \<Rightarrow> bool" where
  "truthy v = (case v of None \<Rightarrow> False | Some s \<Rightarrow> s \<noteq> [])"

subsection \<open>The shares store (per-partition cache)\<close>

text \<open>
  \<^verbatim>\<open>switchNetwork\<close> up to its first suspension. Both \<^verbatim>\<open>fetchAndCacheShares\<close> and
  \<^verbatim>\<open>refreshInBackground\<close> call \<^verbatim>\<open>client.getRecentShares()\<close> at once and then wait.
\<close>

definition switchNetwork :: "jsstring \<Rightarrow> 'item world \<Rightarrow> 'item world" where
  "switchNetwork k w =
     (if \<not> s_client (sstore w) \<and> shareFeedClient w = None then w
      else
        let s = (sstore w)\<lparr>s_client := True, currentNetworkId := Some k,
                            hasNetwork := True, s_error := None\<rparr>
        in case cache s k of
             Some cachedShares \<Rightarrow>
               w\<lparr>sstore := s\<lparr>shares := cachedShares\<rparr>,
                 inflight := inflight w @ [Fetch Background k (target w)]\<rparr>
           | None \<Rightarrow>
               w\<lparr>sstore := s\<lparr>s_loading := True, shares := []\<rparr>,
                 inflight := inflight w @ [Fetch Foreground k (target w)]\<rparr>)"

text \<open>\<^verbatim>\<open>fetchAndCacheShares\<close> after the await: the \<^verbatim>\<open>try\<close> body and the \<^verbatim>\<open>catch\<close>.\<close>

definition fetchAndCacheShares_done ::
  "jsstring \<Rightarrow> 'item outcome \<Rightarrow> 'item SharesStore \<Rightarrow> 'item SharesStore" where
  "fetchAndCacheShares_done k result s =
     (case result of
        Fulfilled fetched \<Rightarrow>
          (let s1 = (if currentNetworkId s = Some k
                     then s\<lparr>shares := fetched, s_loading := False\<rparr> else s)
           in s1\<lparr>cache := (cache s1)(k \<mapsto> fetched)\<rparr>)
      | Rejected err \<Rightarrow>
          (if currentNetworkId s = Some k
           then s\<lparr>s_error := Some (message_or err (js ''Failed to load shares'')),
                  s_loading := False\<rparr>
           else s))"

text \<open>\<^verbatim>\<open>refreshInBackground\<close> after the await; its \<^verbatim>\<open>catch\<close> only logs.\<close>

definition refreshInBackground_done ::
  "jsstring \<Rightarrow> 'item outcome \<Rightarrow> 'item SharesStore \<Rightarrow> 'item SharesStore" where
  "refreshInBackground_done k result s =
     (case result of
        Fulfilled fetched \<Rightarrow>
          (let s1 = (if currentNetworkId s = Some k
                     then s\<lparr>shares := fetched\<rparr> else s)
           in s1\<lparr>cache := (cache s1)(k \<mapsto> fetched)\<rparr>)
      | Rejected err \<Rightarrow> s)"

text \<open>The \<open>i\<close>-th fetch in flight answers, and the function that awaits it goes on.\<close>

definition settle :: "nat \<Rightarrow> 'item outcome \<Rightarrow> 'item world \<Rightarrow> 'item world" where
  "settle i result w =
     (if i < length (inflight w) then
        let f = inflight w ! i;
            s = (case kind f of
                   Foreground \<Rightarrow> fetchAndCacheShares_done (captured f) result (sstore w)
                 | Background \<Rightarrow> refreshInBackground_done (captured f) result (sstore w))
        in w\<lparr>sstore := s, inflight := take i (inflight w) @ drop (Suc i) (inflight w)\<rparr>
      else w)"

subsection \<open>The networks store: \<^verbatim>\<open>ui/src/lib/stores/networks.ts\<close>\<close>

text \<open>
  \<^verbatim>\<open>setActiveNetwork\<close>, up to the suspension inside \<^verbatim>\<open>switchNetwork\<close>. When
  \<^verbatim>\<open>client?.setCellId\<close> throws, the promise is rejected with the thrown value, and
  nothing has been written yet.
\<close>

definition setActiveNetwork :: "jsstring \<Rightarrow> jsstring \<Rightarrow> 'item world \<Rightarrow> thrown + 'item world" where
  "setActiveNetwork msg k w =
     (case find (\<lambda>n. cellIdString n = k) (networks (nstore w)) of
        None \<Rightarrow> Inr w
      | Some network \<Rightarrow>
          (case setCellId msg (Some (cellId network)) (shareFeedClient w) of
             Inl e \<Rightarrow> Inl e
           | Inr _ \<Rightarrow>
               let w2 = w\<lparr>ls_active := Some k\<rparr>;
                   w3 = w2\<lparr>nstore := (nstore w2)
                          \<lparr>activeNetworkId := Some k,
                           networks := map (\<lambda>n. n\<lparr>isActive := (cellIdString n = k)\<rparr>)
                                         (networks (nstore w2))\<rparr>\<rparr>
               in Inr (switchNetwork k w3)))"

text \<open>
  \<^verbatim>\<open>init\<close> (in a browser): up to the await of \<^verbatim>\<open>getNetworks\<close>; the \<^verbatim>\<open>catch\<close>; and the
  rest of the \<^verbatim>\<open>try\<close> body once the conductor's \<^verbatim>\<open>appInfo\<close> is there. That rest calls
  \<^verbatim>\<open>_state.set\<close> first and \<^verbatim>\<open>client?.setCellId\<close> after it, so when the call throws, the
  \<^verbatim>\<open>catch\<close> runs on the state that has been set.
\<close>

definition init_begin :: "'item world \<Rightarrow> 'item world" where
  "init_begin w =
     (if appClient w then w\<lparr>nstore := (nstore w)\<lparr>loading := True, error := None\<rparr>\<rparr>
      else w\<lparr>nstore := (nstore w)\<lparr>loading := False,
                                   error := Some (js ''Not connected to Holochain'')\<rparr>\<rparr>)"

definition init_failed :: "jsstring option \<Rightarrow> 'item world \<Rightarrow> 'item world" where
  "init_failed err w =
     w\<lparr>nstore := (nstore w)\<lparr>loading := False,
                             error := Some (message_or err (js ''Failed to load networks''))\<rparr>\<rparr>"

definition init_loaded :: "jsstring \<Rightarrow> AppInfo option \<Rightarrow> int \<Rightarrow> 'item world \<Rightarrow> 'item world" where
  "init_loaded msg appInfo now w =
     (let fetched = getNetworks appInfo (ls_networks w) now;
          stored = ls_active w;
          restored = (if truthy stored
                         \<and> find (\<lambda>n. Some (cellIdString n) = stored) fetched = None
                      then None else stored);
          activeId = (if \<not> truthy restored \<and> fetched \<noteq> []
                      then Some (cellIdString (hd fetched)) else restored);
          networksWithActive = map (\<lambda>n. n\<lparr>isActive := (Some (cellIdString n) = activeId)\<rparr>) fetched;
          w1 = w\<lparr>nstore := \<lparr>networks = networksWithActive, activeNetworkId = activeId,
                             loading = False, error = None\<rparr>\<rparr>
      in if truthy activeId then
           (case find (\<lambda>n. Some (cellIdString n) = activeId) networksWithActive of
              None \<Rightarrow> w1
            | Some activeNet \<Rightarrow>
                (case setCellId msg (Some (cellId activeNet)) (shareFeedClient w1) of
                   Inl (TypeError m) \<Rightarrow> init_failed (Some m) w1
                 | Inr _ \<Rightarrow> switchNetwork (cellIdString activeNet) w1))
         else w1)"

text \<open>
  \<^verbatim>\<open>createNetwork\<close> and \<^verbatim>\<open>joinNetwork\<close>: up to the await, the store update once the
  conductor has answered with the cell id (\<open>appended\<close>), the auto-switch that follows
  it at once (\<open>created\<close>, \<open>joined\<close>), and the \<^verbatim>\<open>catch\<close>. The auto-switch calls
  \<^verbatim>\<open>setActiveNetwork\<close> without awaiting it, so a rejection of that promise reaches
  nobody: the network is returned and the store stays as \<open>appended\<close> left it.
\<close>

definition create_begin :: "'item world \<Rightarrow> 'item world" where
  "create_begin w =
     (if appClient w then w\<lparr>nstore := (nstore w)\<lparr>loading := True, error := None\<rparr>\<rparr>
      else w\<lparr>nstore := (nstore w)\<lparr>error := Some (js ''Not connected to Holochain'')\<rparr>\<rparr>)"

definition appended :: "Network \<times> NetworkLocalData list \<Rightarrow> 'item world \<Rightarrow> 'item world" where
  "appended answer w =
     w\<lparr>ls_networks := snd answer,
       nstore := (nstore w)\<lparr>networks := networks (nstore w) @ [fst answer], loading := False\<rparr>\<rparr>"

definition createNetwork_created ::
  "jsstring \<Rightarrow> jsstring \<Rightarrow> jsstring option \<Rightarrow> jsstring \<Rightarrow> CellId \<Rightarrow> int
     \<Rightarrow> 'item world \<Rightarrow> 'item world" where
  "createNetwork_created msg nm pass generated cid now w =
     (let answer = createNetworkApi nm pass generated cid now (ls_networks w);
          w1 = appended answer w
      in case setActiveNetwork msg (cellIdString (fst answer)) w1 of
           Inl e \<Rightarrow> w1
         | Inr w2 \<Rightarrow> w2)"

definition joinNetwork_joined ::
  "jsstring \<Rightarrow> jsstring \<Rightarrow> jsstring option \<Rightarrow> CellId \<Rightarrow> int \<Rightarrow> 'item world \<Rightarrow> 'item world" where
  "joinNetwork_joined msg pass nm cid now w =
     (let answer = joinNetworkApi pass nm cid now (ls_networks w);
          w1 = appended answer w
      in case setActiveNetwork msg (cellIdString (fst answer)) w1 of
           Inl e \<Rightarrow> w1
         | Inr w2 \<Rightarrow> w2)"

definition create_failed :: "jsstring option \<Rightarrow> jsstring \<Rightarrow> 'item world \<Rightarrow> 'item world" where
  "create_failed err fallback w =
     w\<lparr>nstore := (nstore w)\<lparr>loading := False, error := Some (message_or err fallback)\<rparr>\<rparr>"

text \<open>
  \<^verbatim>\<open>leaveNetwork\<close>: the network whose clone it asks the conductor to disable (none when
  there is no connection or the id is unknown); the \<^verbatim>\<open>catch\<close>; and, once
  \<^verbatim>\<open>disableCloneCell\<close> has succeeded, the rest of \<^verbatim>\<open>disableNetwork\<close> and the store
  update. When the active network is left, the callback of \<^verbatim>\<open>_state.update\<close> writes the
  last-active value and then calls \<^verbatim>\<open>client?.setCellId\<close>; when that call throws, the
  callback returns nothing, the store keeps its state, and the \<^verbatim>\<open>catch\<close> runs.
\<close>

definition leaveNetwork_request :: "jsstring \<Rightarrow> 'item world \<Rightarrow> Network option" where
  "leaveNetwork_request k w =
     (if \<not> appClient w then None
      else find (\<lambda>n. cellIdString n = k) (networks (nstore w)))"

definition leaveNetwork_failed :: "jsstring option \<Rightarrow> 'item world \<Rightarrow> 'item world" where
  "leaveNetwork_failed err w =
     w\<lparr>nstore := (nstore w)\<lparr>error := Some (message_or err (js ''Failed to leave network''))\<rparr>\<rparr>"

definition leaveNetwork_disabled ::
  "jsstring \<Rightarrow> jsstring \<Rightarrow> Network \<Rightarrow> 'item world \<Rightarrow> 'item world" where
  "leaveNetwork_disabled msg k network w =
     (let w1 = w\<lparr>ls_networks := removeNetworkLocally (cellIdToString (cellId network)) (ls_networks w)\<rparr>;
          s = nstore w1;
          remaining = filter (\<lambda>n. cellIdString n \<noteq> k) (networks s)
      in if activeNetworkId s = Some k then
           let newActiveId = (case remaining of
                                [] \<Rightarrow> None
                              | n # _ \<Rightarrow> if cellIdString n = [] then None
                                         else Some (cellIdString n));
               w2 = w1\<lparr>ls_active := Some (case newActiveId of None \<Rightarrow> [] | Some a \<Rightarrow> a)\<rparr>;
               newActive = find (\<lambda>n. Some (cellIdString n) = newActiveId) remaining
           in (case setCellId msg (map_option cellId newActive) (shareFeedClient w2) of
                 Inl (TypeError m) \<Rightarrow> leaveNetwork_failed (Some m) w2
               | Inr _ \<Rightarrow>
                   w2\<lparr>nstore := s\<lparr>networks := map (\<lambda>n. n\<lparr>isActive := (Some (cellIdString n) = newActiveId)\<rparr>) remaining,
                                     activeNetworkId := newActiveId\<rparr>\<rparr>)
         else
           w1\<lparr>nstore := s\<lparr>networks := map (\<lambda>n. n\<lparr>isActive := (Some (cellIdString n) = activeNetworkId s)\<rparr>) remaining,
                             activeNetworkId := activeNetworkId s\<rparr>\<rparr>)"

definition updateName :: "jsstring \<Rightarrow> jsstring \<Rightarrow> 'item world \<Rightarrow> 'item world" where
  "updateName k nm w =
     w\<lparr>ls_networks := updateNetworkName k nm (ls_networks w),
       nstore := (nstore w)\<lparr>networks :=
         map (\<lambda>n. if cellIdString n = k then n\<lparr>name := nm\<rparr> else n)
           (networks (nstore w))\<rparr>\<rparr>"

definition reset :: "'item world \<Rightarrow> 'item world" where
  "reset w = w\<lparr>nstore := initialState\<rparr>"

text \<open>
  The states the session can be in: it starts with the networks store in its initial
  state, and every operation of the store, with whatever the conductor and the clock
  answer, leads from one state to the next. The state between the two store updates of
  a create or join is one of them.
\<close>

inductive reachable :: "'item world \<Rightarrow> bool" where
  start: "nstore w = initialState \<Longrightarrow> reachable w"
| init_begin: "reachable w \<Longrightarrow> reachable (init_begin w)"
| init_loaded: "reachable w \<Longrightarrow> reachable (init_loaded msg appInfo now w)"
| init_failed: "reachable w \<Longrightarrow> reachable (init_failed err w)"
| create_begin: "reachable w \<Longrightarrow> reachable (create_begin w)"
| create_appended:
    "reachable w \<Longrightarrow> appClient w \<Longrightarrow>
     reachable (appended (createNetworkApi nm pass generated cid now (ls_networks w)) w)"
| created:
    "reachable w \<Longrightarrow> appClient w \<Longrightarrow>
     reachable (createNetwork_created msg nm pass generated cid now w)"
| create_failed: "reachable w \<Longrightarrow> reachable (create_failed err fallback w)"
| join_appended:
    "reachable w \<Longrightarrow> appClient w \<Longrightarrow>
     reachable (appended (joinNetworkApi pass' nm' cid now (ls_networks w)) w)"
| joined:
    "reachable w \<Longrightarrow> appClient w \<Longrightarrow> reachable (joinNetwork_joined msg pass' nm' cid now w)"
| setActiveNetwork: "reachable w \<Longrightarrow> setActiveNetwork msg k w = Inr w' \<Longrightarrow> reachable w'"
| left:
    "reachable w0 \<Longrightarrow> leaveNetwork_request k w0 = Some network \<Longrightarrow> reachable w \<Longrightarrow>
     reachable (leaveNetwork_disabled msg k network w)"
| leave_failed: "reachable w \<Longrightarrow> reachable (leaveNetwork_failed err w)"
| updateName: "reachable w \<Longrightarrow> reachable (updateName k nm w)"
| reset: "reachable w \<Longrightarrow> reachable (reset w)"
| settle: "reachable w \<Longrightarrow> reachable (settle i result w)"

text \<open>
  What every reachable state of the networks store satisfies: each network's
  \<^verbatim>\<open>cellIdString\<close> is the string form of its \<^verbatim>\<open>cellId\<close>; \<^verbatim>\<open>activeNetworkId\<close> is
  \<^verbatim>\<open>null\<close>, the empty string or the id of a network of the sequence; a network whose
  \<^verbatim>\<open>isActive\<close> is set has the active id; and, when no id occurs twice, the network with
  the active id has \<^verbatim>\<open>isActive\<close> set.
\<close>

definition store_inv :: "NetworksStoreState \<Rightarrow> bool" where
  "store_inv s \<longleftrightarrow>
     (\<forall>n\<in>set (networks s). cellIdString n = cellIdToString (cellId n))
     \<and> (activeNetworkId s = None \<or> activeNetworkId s = Some []
          \<or> activeNetworkId s \<in> (\<lambda>n. Some (cellIdString n)) ` set (networks s))
     \<and> (\<forall>n\<in>set (networks s). isActive n \<longrightarrow> Some (cellIdString n) = activeNetworkId s)
     \<and> (distinct (map cellIdString (networks s))
          \<longrightarrow> (\<forall>n\<in>set (networks s). Some (cellIdString n) = activeNetworkId s \<longrightarrow> isActive n))"

text \<open>
  The session right after \<^verbatim>\<open>connect()\<close> and \<^verbatim>\<open>sharesStore.init()\<close> have succeeded, with
  nothing in local storage and no network selected yet.
\<close>

definition connected_session :: "'item world" where
  "connected_session =
     \<lparr>appClient = True,
      shareFeedClient = Some newShareFeedClient,
      ls_active = None,
      ls_networks = [],
      nstore = initialState,
      sstore = \<lparr>shares = [], s_loading = False, s_error = None, connected = True,
                hasNetwork = False, cache = Map.empty, currentNetworkId = None,
                s_client = True\<rparr>,
      inflight = []\<rparr>"

text \<open>
  Three sessions that serve as instances. In each the engine words the \<^verbatim>\<open>TypeError\<close> as
  \<^verbatim>\<open>client.setCellId is not a function\<close>.

  \<^item> \<open>one_network_session\<close>: the connected session after \<^verbatim>\<open>createNetwork('Books')\<close>, which
    the conductor has answered with the cell \<open>([1], [2])\<close>.

  \<^item> \<open>two_networks_session\<close>: after that, \<^verbatim>\<open>createNetwork('Films')\<close>, answered with the cell
    \<open>([3], [2])\<close>, and then \<^verbatim>\<open>refresh()\<close>, to which the conductor reports its provisioned
    cell and the two clones, in the keyed shape.

  \<^item> \<open>duplicate_report_session\<close>: the connected session after \<^verbatim>\<open>init()\<close>, to which the
    conductor reports one cloned cell twice.
\<close>

definition not_a_function :: jsstring where
  "not_a_function = js ''client.setCellId is not a function''"

definition one_network_session :: "'item world" where
  "one_network_session =
     createNetwork_created not_a_function (js ''Books'') None (js ''oak elm ash fir yew'')
       ([1], [2]) 5 connected_session"

definition two_networks_session :: "'item world" where
  "two_networks_session =
     init_loaded not_a_function
       (Some [ROLE_NAME \<mapsto>
                [Provisioned,
                 Cloned (ClonedCell ([1], [2]) [] None),
                 Cloned (ClonedCell ([3], [2]) [] None)]])
       9
       (init_begin
          (createNetwork_created not_a_function (js ''Films'') None (js ''one two six ten elf'')
             ([3], [2]) 7 one_network_session))"

definition duplicate_report_session :: "'item world" where
  "duplicate_report_session =
     init_loaded not_a_function
       (Some [ROLE_NAME \<mapsto>
                [Cloned (ClonedCell ([1], [2]) (js ''Books'') None),
                 Cloned (ClonedCell ([1], [2]) (js ''Books'') None)]])
       9
       (init_begin connected_session)"

section \<open>Properties of the string operations\<close>

lemma trim_hd_not_ws:
  assumes "trim s \<noteq> []"
  shows "\<not> is_ws (hd (trim s))"
proof -
  define t where "t = dropWhile is_ws s"
  define u where "u = dropWhile is_ws (rev t)"
  have tr: "trim s = rev u" by (simp add: trim_def t_def u_def)
  with assms have une: "u \<noteq> []" by simp
  have "set u \<subseteq> set t"
    unfolding u_def using set_dropWhileD [of _ is_ws "rev t"] by auto
  with une have tne: "t \<noteq> []" by auto
  then have hdt: "\<not> is_ws (hd t)" unfolding t_def by (rule hd_dropWhile)
  have "rev t = takeWhile is_ws (rev t) @ u"
    by (simp add: u_def)
  then have "t = rev u @ rev (takeWhile is_ws (rev t))"
    by (metis rev_append rev_rev_ident)
  with une have "hd t = hd (rev u)" by (metis hd_append2 rev_is_Nil_conv)
  with hdt tr show ?thesis by simp
qed

lemma trim_last_not_ws:
  assumes "trim s \<noteq> []"
  shows "\<not> is_ws (last (trim s))"
proof -
  define u where "u = dropWhile is_ws (rev (dropWhile is_ws s))"
  have tr: "trim s = rev u" by (simp add: trim_def u_def)
  with assms have une: "u \<noteq> []" by simp
  then have "\<not> is_ws (hd u)" unfolding u_def by (rule hd_dropWhile)
  with une tr show ?thesis by (simp add: last_rev)
qed

lemma split_ws_no_empty:
  "s \<noteq> [] \<Longrightarrow> \<not> is_ws (hd s) \<Longrightarrow> \<not> is_ws (last s) \<Longrightarrow> [] \<notin> set (split_ws s)"
proof (induction s rule: split_ws.induct)
  case (1 s)
  define r where "r = dropWhile (\<lambda>c. \<not> is_ws c) s"
  show ?case
  proof (cases "r = []")
    case True
    then have "split_ws s = [s]"
      by (simp add: split_ws.simps [of s] r_def del: dropWhile_eq_Nil_conv)
    with "1.prems" show ?thesis by simp
  next
    case False
    define r' where "r' = dropWhile is_ws r"
    have s_eq: "s = takeWhile (\<lambda>c. \<not> is_ws c) s @ r" by (simp add: r_def)
    have tok_ne: "takeWhile (\<lambda>c. \<not> is_ws c) s \<noteq> []"
      using "1.prems"(1,2) by (cases s) auto
    have r_eq: "r = takeWhile is_ws r @ r'" by (simp add: r'_def)
    have last_r: "last r = last s" using s_eq False by (metis last_appendR)
    have r'_ne: "r' \<noteq> []"
    proof
      assume "r' = []"
      then have "\<forall>c\<in>set r. is_ws c" unfolding r'_def by (simp add: dropWhile_eq_Nil_conv)
      with False have "is_ws (last r)" by simp
      with last_r "1.prems"(3) show False by simp
    qed
    then have hd': "\<not> is_ws (hd r')" unfolding r'_def by (rule hd_dropWhile)
    have "last r' = last r" using r_eq r'_ne by (metis last_appendR)
    with last_r "1.prems"(3) have last': "\<not> is_ws (last r')" by simp
    have "[] \<notin> set (split_ws r')"
      using "1.IH" False r'_ne hd' last' by (simp add: r_def r'_def)
    moreover have "split_ws s = takeWhile (\<lambda>c. \<not> is_ws c) s # split_ws r'"
      using False by (simp add: split_ws.simps [of s] r_def r'_def del: dropWhile_eq_Nil_conv)
    ultimately show ?thesis using tok_ne by auto
  qed
qed

lemma split_ws_trim_no_empty: "trim s \<noteq> [] \<Longrightarrow> [] \<notin> set (split_ws (trim s))"
  by (rule split_ws_no_empty) (simp_all add: trim_hd_not_ws trim_last_not_ws)

lemma split_ws_Nil [simp]: "split_ws [] = [[]]"
  by (simp add: split_ws.simps [of "[]"])

lemma split_ws_not_Nil: "split_ws s \<noteq> []"
  by (subst split_ws.simps) simp

lemma split_on_no_sep: "sep \<notin> set t \<Longrightarrow> split_on sep t = [t]"
  by (induction t) auto

lemma split_on_append_sep:
  "sep \<notin> set t \<Longrightarrow> split_on sep (t @ sep # rest) = t # split_on sep rest"
  by (induction t) auto

lemma split_on_join:
  "ts \<noteq> [] \<Longrightarrow> \<forall>t\<in>set ts. sep \<notin> set t \<Longrightarrow> split_on sep (join [sep] ts) = ts"
  by (induction "[sep]" ts rule: join.induct) (auto simp: split_on_no_sep split_on_append_sep)

lemma replace_first_prefix: "pat \<noteq> [] \<Longrightarrow> replace_first pat rep (pat @ s) = rep @ s"
  by (cases pat) auto

text \<open>Unfolding the string functions on a literal.\<close>

lemmas eval_secrets =
  js_def is_ws_def trim_def split_ws.simps validatePassphrase_def
  passphraseToNetworkSeed_def networkSeedToPassphrase_def Let_def

section \<open>The secret codec\<close>

text \<open>
  Claim C10. The branch of \<^verbatim>\<open>validatePassphrase\<close> that answers
  \<^verbatim>\<open>Each word must have at least one character\<close> is never taken: splitting a trimmed
  input that is not empty on \<^verbatim>\<open>/\s+/\<close> gives no empty word, so no input at all is
  rejected for that reason.
\<close>

theorem validatePassphrase_empty_word_unreachable:
  "(trim p \<noteq> [] \<longrightarrow> [] \<notin> set (split_ws (trim p)))
   \<and> validatePassphrase p \<noteq> Invalid EmptyWord"
  using split_ws_trim_no_empty [of p]
  by (auto simp: validatePassphrase_def Let_def list_all_iff)

theorem validatePassphrase_empty_word_unreachable_witness:
  "trim (js '' tea  cup '') \<noteq> []
   \<and> [] \<notin> set (split_ws (trim (js '' tea  cup '')))
   \<and> validatePassphrase (js '' tea  cup '') \<noteq> Invalid EmptyWord"
proof -
  have ne: "trim (js '' tea  cup '') \<noteq> []" by (simp add: eval_secrets)
  from validatePassphrase_empty_word_unreachable [of "js '' tea  cup ''"] ne
  show ?thesis by blast
qed

text \<open>
  Claim C7, as the spec states it, fails on the empty input: its trimmed form splits
  into the one word \<^verbatim>\<open>""\<close>, which is a word count other than 5 and a zero-length token,
  and the answer is \<^verbatim>\<open>Passphrase is required\<close>, neither the word-count reason nor the
  empty-word reason.
\<close>

theorem validatePassphrase_blank_counterexample:
  "length (split_ws (trim (js ''''))) \<noteq> 5
   \<and> [] \<in> set (split_ws (trim (js '''')))
   \<and> validatePassphrase (js '''') = Invalid PassphraseRequired
   \<and> validatePassphrase (js '''') \<noteq> Invalid (WrongWordCount (length (split_ws (trim (js '''')))))
   \<and> validatePassphrase (js '''') \<noteq> Invalid EmptyWord"
  by (simp add: eval_secrets)

text \<open>
  Claim C7, amended. \<^verbatim>\<open>validatePassphrase\<close> answers valid exactly when the trimmed
  input splits on whitespace into exactly 5 words, none of them empty. An input whose
  trimmed form is not empty and splits into another number \<open>n\<close> of words is rejected
  with the word-count reason for \<open>n\<close>. The split holds a zero-length word exactly when
  the trimmed input is empty, and that input is rejected with the reason
  \<^verbatim>\<open>Passphrase is required\<close>.
\<close>

theorem validatePassphrase_shape:
  "(validatePassphrase p = Valid
      \<longleftrightarrow> length (split_ws (trim p)) = 5 \<and> [] \<notin> set (split_ws (trim p)))
   \<and> (trim p \<noteq> [] \<and> length (split_ws (trim p)) \<noteq> 5
        \<longrightarrow> validatePassphrase p = Invalid (WrongWordCount (length (split_ws (trim p)))))
   \<and> ([] \<in> set (split_ws (trim p)) \<longleftrightarrow> trim p = [])
   \<and> (trim p = [] \<longrightarrow> validatePassphrase p = Invalid PassphraseRequired)"
  using split_ws_trim_no_empty [of p]
  by (auto simp: validatePassphrase_def Let_def list_all_iff)

theorem validatePassphrase_shape_witness:
  "validatePassphrase (js ''oak elm ash fir yew'') = Valid
   \<and> validatePassphrase (js ''oak elm ash'') = Invalid (WrongWordCount 3)
   \<and> validatePassphrase (js ''   '') = Invalid PassphraseRequired"
proof -
  have five: "length (split_ws (trim (js ''oak elm ash fir yew''))) = 5
              \<and> [] \<notin> set (split_ws (trim (js ''oak elm ash fir yew'')))"
    by (simp add: eval_secrets)
  have three: "trim (js ''oak elm ash'') \<noteq> [] \<and> length (split_ws (trim (js ''oak elm ash''))) = 3"
    by (simp add: eval_secrets)
  have blank: "trim (js ''   '') = []"
    by (simp add: eval_secrets)
  from validatePassphrase_shape [of "js ''oak elm ash fir yew''"] five
  have a: "validatePassphrase (js ''oak elm ash fir yew'') = Valid" by blast
  from validatePassphrase_shape [of "js ''oak elm ash''"] three
  have b: "validatePassphrase (js ''oak elm ash'') = Invalid (WrongWordCount 3)" by simp
  from validatePassphrase_shape [of "js ''   ''"] blank
  have c: "validatePassphrase (js ''   '') = Invalid PassphraseRequired" by blast
  from a b c show ?thesis by blast
qed

text \<open>
  Claim C2, as the spec states it, fails on a passphrase that \<^verbatim>\<open>validatePassphrase\<close>
  accepts and whose words are not separated by single spaces: encoding forgets how the
  words were separated, and decoding joins them with single spaces.
\<close>

theorem decode_encode_counterexample:
  "validatePassphrase (js ''oak  elm ash fir yew'') = Valid
   \<and> networkSeedToPassphrase (passphraseToNetworkSeed (js ''oak  elm ash fir yew''))
       = js ''oak elm ash fir yew''
   \<and> networkSeedToPassphrase (passphraseToNetworkSeed (js ''oak  elm ash fir yew''))
       \<noteq> js ''oak  elm ash fir yew''"
  by (simp add: eval_secrets)

text \<open>
  Claim C2, amended. For every passphrase that \<^verbatim>\<open>validatePassphrase\<close> accepts and
  whose words hold no hyphen, \<^verbatim>\<open>networkSeedToPassphrase(passphraseToNetworkSeed(p))\<close>
  is the five words of \<open>p\<close> joined by single spaces; so it is \<open>p\<close> itself exactly when
  \<open>p\<close> is already written that way (no whitespace around it, one space between words).
\<close>

theorem decode_encode_normalises:
  assumes "validatePassphrase p = Valid"
    and "\<forall>w\<in>set (split_ws (trim p)). 0x2D \<notin> set w"
  shows "networkSeedToPassphrase (passphraseToNetworkSeed p) = join (js '' '') (split_ws (trim p))
         \<and> (networkSeedToPassphrase (passphraseToNetworkSeed p) = p
              \<longleftrightarrow> p = join (js '' '') (split_ws (trim p)))"
proof -
  have pre: "js ''sharefeed-'' \<noteq> []" by (simp add: js_def)
  have hy: "js ''-'' = [0x2D]" by (simp add: js_def)
  have "networkSeedToPassphrase (passphraseToNetworkSeed p) = join (js '' '') (split_ws (trim p))"
    unfolding networkSeedToPassphrase_def passphraseToNetworkSeed_def
    using assms(2)
    by (simp add: replace_first_prefix [OF pre] hy split_on_join split_ws_not_Nil)
  then show ?thesis by auto
qed

theorem decode_encode_normalises_witness:
  "validatePassphrase (js ''oak elm ash fir yew'') = Valid
   \<and> split_ws (trim (js ''oak elm ash fir yew''))
       = [js ''oak'', js ''elm'', js ''ash'', js ''fir'', js ''yew'']
   \<and> networkSeedToPassphrase (passphraseToNetworkSeed (js ''oak elm ash fir yew''))
       = js ''oak elm ash fir yew''"
proof -
  have v: "validatePassphrase (js ''oak elm ash fir yew'') = Valid"
    by (simp add: eval_secrets)
  have h: "\<forall>w\<in>set (split_ws (trim (js ''oak elm ash fir yew''))). 0x2D \<notin> set w"
    by (simp add: eval_secrets)
  have j: "join (js '' '') (split_ws (trim (js ''oak elm ash fir yew''))) = js ''oak elm ash fir yew''"
    by (simp add: eval_secrets)
  have w: "split_ws (trim (js ''oak elm ash fir yew''))
             = [js ''oak'', js ''elm'', js ''ash'', js ''fir'', js ''yew'']"
    by (simp add: eval_secrets)
  from decode_encode_normalises [OF v h] j v w show ?thesis by simp
qed

section \<open>Properties of the Base64 functions\<close>

lemma b64_groups_length:
  "length (b64_groups xs) =
     4 * (length xs div 3) + (if length xs mod 3 = 0 then 0 else length xs mod 3 + 1)"
proof (induction xs rule: b64_groups.induct)
  case (1 a b c rest)
  have "(3 + length rest) div 3 = 1 + length rest div 3"
    and "(3 + length rest) mod 3 = length rest mod 3" by presburger+
  with 1 show ?case by simp
qed simp_all

lemma b64_groups_bound:
  "\<forall>x\<in>set xs. x < 256 \<Longrightarrow> \<forall>y\<in>set (b64_groups xs). y < 64"
proof (induction xs rule: b64_groups.induct)
  case (1 a b c rest)
  have "a div 4 < 64" "(a mod 4) * 16 + b div 16 < 64" "(b mod 16) * 4 + c div 64 < 64" "c mod 64 < 64"
    using "1.prems" by auto
  with 1 show ?case by auto
next
  case (2 a b)
  have "a div 4 < 64" "(a mod 4) * 16 + b div 16 < 64" "(b mod 16) * 4 < 64"
    using "2.prems" by auto
  then show ?case by auto
next
  case (3 a)
  have "a div 4 < 64" "(a mod 4) * 16 < 64" using "3.prems" by auto
  then show ?case by auto
next
  case 4
  then show ?case by simp
qed

lemma b64_bytes_length:
  "length (b64_bytes xs) =
     3 * (length xs div 4) + (if length xs mod 4 = 0 then 0 else length xs mod 4 - 1)"
proof (induction xs rule: b64_bytes.induct)
  case (1 p q r s rest)
  have "(4 + length rest) div 4 = 1 + length rest div 4"
    and "(4 + length rest) mod 4 = length rest mod 4" by presburger+
  with 1 show ?case by simp
qed simp_all

lemma those_length: "those xs = Some ys \<Longrightarrow> length ys = length xs"
  by (induction xs arbitrary: ys) (auto split: option.splits)

lemma b64url_alphabet_plain: "list_all plain b64url_alphabet"
  by (simp add: b64url_alphabet_def js_def plain_def)

lemma b64url_alphabet_length: "length b64url_alphabet = 64"
  by (simp add: b64url_alphabet_def js_def)

lemma encodeHashToBase64_plain: "c \<in> set (encodeHashToBase64 h) \<Longrightarrow> plain c"
proof -
  assume c: "c \<in> set (encodeHashToBase64 h)"
  have bound: "\<forall>y\<in>set (b64_groups (map unat h)). y < 64"
  proof (rule b64_groups_bound)
    show "\<forall>x\<in>set (map unat h). x < 256"
      using unsigned_less [where 'b = 8 and 'a = nat] by auto
  qed
  from c consider "c = 0x75" | n where "n \<in> set (b64_groups (map unat h))" "c = b64url_alphabet ! n"
    by (auto simp: encodeHashToBase64_def js_def)
  then show "plain c"
  proof cases
    case 1
    then show ?thesis by (simp add: plain_def)
  next
    case 2
    with bound have "n < length b64url_alphabet" by (simp add: b64url_alphabet_length)
    then have "b64url_alphabet ! n \<in> set b64url_alphabet" by (rule nth_mem)
    with b64url_alphabet_plain 2 show ?thesis by (simp add: list_all_iff)
  qed
qed

lemma encodeHashToBase64_length:
  "length (encodeHashToBase64 h) =
     1 + 4 * (length h div 3) + (if length h mod 3 = 0 then 0 else length h mod 3 + 1)"
  by (simp add: encodeHashToBase64_def js_def b64_groups_length)

lemma atob_plain:
  assumes pl: "\<forall>c\<in>set s. plain c"
  shows "atob s =
           (if length s mod 4 = 1 then Inl InvalidCharacterError
            else (case those (map (\<lambda>c. index_of c b64_alphabet) s) of
                    None \<Rightarrow> Inl InvalidCharacterError
                  | Some sextets \<Rightarrow> Inr (map of_nat (b64_bytes sextets))))"
proof -
  have f: "filter (\<lambda>c. c \<notin> {0x09, 0x0A, 0x0C, 0x0D, 0x20}) s = s"
    using pl by (auto simp: plain_def filter_id_conv)
  have sp: "strip_padding s = s"
  proof (cases "s = []")
    case True
    then show ?thesis by simp
  next
    case False
    then have "last s \<in> set s" by simp
    with pl have "last s \<noteq> 0x3D" by (auto simp: plain_def)
    then show ?thesis by simp
  qed
  show ?thesis unfolding atob_def Let_def f sp ..
qed

lemma atob_encodeHashToBase64_length:
  assumes "atob (encodeHashToBase64 h) = Inr t"
  shows "length t \<noteq> length h"
proof -
  define s where "s = encodeHashToBase64 h"
  have pl: "\<forall>c\<in>set s. plain c" using encodeHashToBase64_plain by (auto simp: s_def)
  note at = atob_plain [OF pl]
  from assms have nz: "length s mod 4 \<noteq> 1"
    by (auto simp: at s_def [symmetric] split: if_splits)
  from assms nz obtain sextets where
    th: "those (map (\<lambda>c. index_of c b64_alphabet) s) = Some sextets"
    and t: "t = map of_nat (b64_bytes sextets)"
    by (auto simp: at s_def [symmetric] split: option.splits)
  from those_length [OF th] have ls: "length sextets = length s" by simp
  have len: "length s = 1 + 4 * (length h div 3) + (if length h mod 3 = 0 then 0 else length h mod 3 + 1)"
    by (simp add: s_def encodeHashToBase64_length)
  have lt: "length t = 3 * (length s div 4) + (if length s mod 4 = 0 then 0 else length s mod 4 - 1)"
    by (simp add: t b64_bytes_length ls)
  consider "length h mod 3 = 0" | "length h mod 3 = 1" | "length h mod 3 = 2" by arith
  then show ?thesis
  proof cases
    case 1
    with len have "length s mod 4 = 1" by simp
    with nz show ?thesis by simp
  next
    case 2
    with len have l: "length s = 4 * (length h div 3) + 3" by simp
    then have "length s div 4 = length h div 3" "length s mod 4 = 3" by auto
    with lt have "length t = 3 * (length h div 3) + 2" by simp
    moreover have "length h = 3 * (length h div 3) + 1" using 2 by presburger
    ultimately show ?thesis by arith
  next
    case 3
    with len have l: "length s = 4 * (length h div 3 + 1)" by simp
    then have "length s div 4 = length h div 3 + 1" "length s mod 4 = 0" by auto
    with lt have "length t = 3 * (length h div 3) + 3" by simp
    moreover have "length h = 3 * (length h div 3) + 2" using 3 by presburger
    ultimately show ?thesis by arith
  qed
qed

lemma split_cellIdToString:
  "split_on 0x3A (cellIdToString c) = [encodeHashToBase64 (fst c), encodeHashToBase64 (snd c)]"
proof -
  have a: "0x3A \<notin> set (encodeHashToBase64 (fst c))"
    using encodeHashToBase64_plain [of "0x3A" "fst c"] by (auto simp: plain_def)
  have b: "0x3A \<notin> set (encodeHashToBase64 (snd c))"
    using encodeHashToBase64_plain [of "0x3A" "snd c"] by (auto simp: plain_def)
  have "cellIdToString c = encodeHashToBase64 (fst c) @ 0x3A # encodeHashToBase64 (snd c)"
    by (simp add: cellIdToString_def js_def)
  then show ?thesis by (simp add: split_on_append_sep [OF a] split_on_no_sep [OF b])
qed

lemma cellIdFromString_never_inverts: "cellIdFromString (cellIdToString c) \<noteq> Inr c"
proof
  assume eq: "cellIdFromString (cellIdToString c) = Inr c"
  then obtain t where t: "atob (encodeHashToBase64 (fst c)) = Inr t" and "map ucast t = fst c"
    by (auto simp: cellIdFromString_def split_cellIdToString piece_def Let_def split: sum.splits)
  then have "length t = length (fst c)" by (metis length_map)
  with atob_encodeHashToBase64_length [OF t] show False by simp
qed

lemma cellIdFromString_throws:
  assumes m: "length (fst c) mod 3 = 0"
  shows "cellIdFromString (cellIdToString c) = Inl InvalidCharacterError"
proof -
  define s where "s = encodeHashToBase64 (fst c)"
  have pl: "\<forall>c\<in>set s. plain c" using encodeHashToBase64_plain by (auto simp: s_def)
  have "length s mod 4 = 1" using m by (simp add: s_def encodeHashToBase64_length)
  then have "atob (encodeHashToBase64 (fst c)) = Inl InvalidCharacterError"
    by (simp add: atob_plain [OF pl] s_def [symmetric])
  then show ?thesis
    by (simp add: cellIdFromString_def split_cellIdToString piece_def Let_def)
qed

text \<open>Unfolding the Base64 functions on a literal.\<close>

lemmas eval_b64 =
  encodeHashToBase64_def b64url_alphabet_def b64_alphabet_def js_def atob_def
  cellIdToString_def cellIdFromString_def piece_def Let_def

section \<open>Cell ids and their string form\<close>

text \<open>
  Claim C9 says that \<^verbatim>\<open>cellIdFromString(cellIdToString(c))\<close> is \<open>c\<close> and never fails.
  The code does not do that. \<^verbatim>\<open>cellIdToString\<close> writes each hash with
  \<^verbatim>\<open>encodeHashToBase64\<close>, that is with a leading \<^verbatim>\<open>u\<close>, and \<^verbatim>\<open>cellIdFromString\<close>
  reads it back with \<^verbatim>\<open>atob\<close>, which takes the \<^verbatim>\<open>u\<close> for a Base64 digit. So for no
  cell id at all is the result the cell id that was written; and when the length of the
  DNA hash is a multiple of 3, as for the 39 bytes of a Holochain hash, the text is
  4k + 1 characters long and \<^verbatim>\<open>atob\<close> throws.
\<close>

theorem cellIdFromString_not_inverse:
  "cellIdFromString (cellIdToString c) \<noteq> Inr c
   \<and> (length (fst c) mod 3 = 0
        \<longrightarrow> cellIdFromString (cellIdToString c) = Inl InvalidCharacterError)"
  using cellIdFromString_never_inverts [of c] cellIdFromString_throws [of c] by blast

theorem cellIdFromString_not_inverse_witness:
  "cellIdToString
     ([132, 45, 36, 7, 7, 7, 7, 7, 7, 7, 7, 7, 7, 7, 7, 7, 7, 7, 7, 7, 7, 7, 7, 7, 7,
     7, 7, 7, 7, 7, 7, 7, 7, 7, 7, 7, 7, 7, 7],
      [132, 32, 36, 9, 9, 9, 9, 9, 9, 9, 9, 9, 9, 9, 9, 9, 9, 9, 9, 9, 9, 9, 9, 9, 9,
      9, 9, 9, 9, 9, 9, 9, 9, 9, 9, 9, 9, 9, 9])
     = js ''uhC0kBwcHBwcHBwcHBwcHBwcHBwcHBwcHBwcHBwcHBwcHBwcHBwcH:uhCAkCQkJCQkJCQkJCQkJCQkJCQkJCQkJCQkJCQkJCQkJCQkJCQkJ''
   \<and> cellIdFromString
        (cellIdToString
           ([132, 45, 36, 7, 7, 7, 7, 7, 7, 7, 7, 7, 7, 7, 7, 7, 7, 7, 7, 7, 7, 7, 7, 7, 7,
           7, 7, 7, 7, 7, 7, 7, 7, 7, 7, 7, 7, 7, 7],
            [132, 32, 36, 9, 9, 9, 9, 9, 9, 9, 9, 9, 9, 9, 9, 9, 9, 9, 9, 9, 9, 9, 9, 9, 9,
            9, 9, 9, 9, 9, 9, 9, 9, 9, 9, 9, 9, 9, 9]))
       = Inl InvalidCharacterError"
proof -
  define dna :: bytes where
    "dna = [132, 45, 36, 7, 7, 7, 7, 7, 7, 7, 7, 7, 7, 7, 7, 7, 7, 7, 7, 7, 7, 7, 7, 7, 7,
           7, 7, 7, 7, 7, 7, 7, 7, 7, 7, 7, 7, 7, 7]"
  define agent :: bytes where
    "agent = [132, 32, 36, 9, 9, 9, 9, 9, 9, 9, 9, 9, 9, 9, 9, 9, 9, 9, 9, 9, 9, 9, 9, 9, 9,
             9, 9, 9, 9, 9, 9, 9, 9, 9, 9, 9, 9, 9, 9]"
  have len: "length (fst (dna, agent)) mod 3 = 0"
    by (simp add: dna_def)
  have str: "cellIdToString (dna, agent)
     = js ''uhC0kBwcHBwcHBwcHBwcHBwcHBwcHBwcHBwcHBwcHBwcHBwcHBwcH:uhCAkCQkJCQkJCQkJCQkJCQkJCQkJCQkJCQkJCQkJCQkJCQkJCQkJ''"
    by (simp add: eval_b64 dna_def agent_def)
  from cellIdFromString_not_inverse [of "(dna, agent)"] len str
  have "cellIdToString (dna, agent)
     = js ''uhC0kBwcHBwcHBwcHBwcHBwcHBwcHBwcHBwcHBwcHBwcHBwcHBwcH:uhCAkCQkJCQkJCQkJCQkJCQkJCQkJCQkJCQkJCQkJCQkJCQkJCQkJ''
   \<and> cellIdFromString (cellIdToString (dna, agent)) = Inl InvalidCharacterError"
    by blast
  then show ?thesis unfolding dna_def agent_def .
qed

section \<open>Properties of \<^verbatim>\<open>getNetworks\<close>\<close>

lemma getNetworks_loop_map:
  "getNetworks_loop localData now cells acc
     = acc @ map (mergeCloned localData now)
               (reportedClonedCells (filter (\<lambda>cell. \<not> tagged cell) cells))"
  by (induction cells arbitrary: acc) (simp_all split: CellInfo.splits)

lemma getNetworks_map:
  "getNetworks (Some info) localData now
     = map (mergeCloned localData now)
         (reportedClonedCells
            (filter (\<lambda>cell. \<not> tagged cell) (case info ROLE_NAME of None \<Rightarrow> [] | Some cs \<Rightarrow> cs)))"
  by (simp add: getNetworks_def getNetworks_loop_map)

lemma mergeCloned_id:
  "cellId (mergeCloned localData now c) = cell_id c"
  "cellIdString (mergeCloned localData now c) = cellIdToString (cell_id c)"
  "isActive (mergeCloned localData now c) = False"
  by (simp_all add: mergeCloned_def Let_def)

lemma networkSeedToPassphrase_Nil: "networkSeedToPassphrase [] = []"
  by (simp add: networkSeedToPassphrase_def js_def)

text \<open>
  The join of one cloned cell with the local records: the passphrase is the one of the
  first record with the cell's id when that record has one, else it is decoded from the
  cell's network seed when the conductor exposes one, else it is empty; the name is the
  record's, else the clone's, else \<^verbatim>\<open>Unnamed Network\<close>.
\<close>

lemma mergeCloned_passphrase:
  "passphrase (mergeCloned localData now c) =
     (case find (\<lambda>l. cellIdString l = cellIdToString (cell_id c)) localData of
        Some l \<Rightarrow> if passphrase l \<noteq> [] then passphrase l
                  else (case network_seed c of None \<Rightarrow> [] | Some seed \<Rightarrow> networkSeedToPassphrase seed)
      | None \<Rightarrow> (case network_seed c of None \<Rightarrow> [] | Some seed \<Rightarrow> networkSeedToPassphrase seed))"
  by (simp add: mergeCloned_def Let_def str_or_def networkSeedToPassphrase_Nil split: option.splits)

lemma mergeCloned_name:
  "name (mergeCloned localData now c) =
     (case find (\<lambda>l. cellIdString l = cellIdToString (cell_id c)) localData of
        Some l \<Rightarrow> str_or (name l) (str_or (cloned_name c) (js ''Unnamed Network''))
      | None \<Rightarrow> str_or (cloned_name c) (js ''Unnamed Network''))"
  by (simp add: mergeCloned_def Let_def str_or_def split: option.splits)

lemma reportedClonedCells_keyed_le:
  "length (reportedClonedCells (filter (\<lambda>cell. \<not> tagged cell) cells))
     \<le> length (reportedClonedCells cells)"
  by (induction cells rule: reportedClonedCells.induct) simp_all

lemma reportedClonedCells_keyed_less:
  "TypeCloned cloned \<in> set cells \<Longrightarrow>
   length (reportedClonedCells (filter (\<lambda>cell. \<not> tagged cell) cells))
     < length (reportedClonedCells cells)"
proof (induction cells rule: reportedClonedCells.induct)
  case (3 c cells)
  then show ?case using reportedClonedCells_keyed_le [of cells] by simp
qed auto

lemma all_tagged_no_keyed:
  "\<forall>cell\<in>set cells. tagged cell \<Longrightarrow> filter (\<lambda>cell. \<not> tagged cell) cells = []"
  by (simp add: filter_empty_conv)

section \<open>The partition registry\<close>

text \<open>
  Claim C6 does not hold of the code. \<^verbatim>\<open>getNetworks\<close> takes a reported cell for a
  cloned cell by the test \<^verbatim>\<open>'cloned' in cell\<close>, which only a cell of the keyed shape
  \<^verbatim>\<open>{cloned: cell}\<close> passes. What it returns is the join of the local records with the
  cloned cells of the keyed shape, in the reported order. A cloned cell that is
  reported in the tagged shape \<^verbatim>\<open>{type: 'cloned', value: cell}\<close> is missing from the
  result, and when every reported cell has the tagged shape the result is empty,
  however many cloned cells the conductor reports.
\<close>

theorem getNetworks_skips_tagged_cells:
  fixes info :: AppInfo and localData :: "NetworkLocalData list" and now :: int
  defines "cells \<equiv> (case info ROLE_NAME of None \<Rightarrow> [] | Some cs \<Rightarrow> cs)"
  shows "getNetworks (Some info) localData now
           = map (mergeCloned localData now)
               (reportedClonedCells (filter (\<lambda>cell. \<not> tagged cell) cells))
   \<and> ((\<exists>cloned. TypeCloned cloned \<in> set cells) \<longrightarrow>
        length (getNetworks (Some info) localData now) < length (reportedClonedCells cells))
   \<and> ((\<forall>cell\<in>set cells. tagged cell) \<longrightarrow> getNetworks (Some info) localData now = [])"
proof -
  have r: "getNetworks (Some info) localData now
             = map (mergeCloned localData now)
                 (reportedClonedCells (filter (\<lambda>cell. \<not> tagged cell) cells))"
    by (simp add: cells_def getNetworks_map)
  have l: "(\<exists>cloned. TypeCloned cloned \<in> set cells) \<longrightarrow>
        length (getNetworks (Some info) localData now) < length (reportedClonedCells cells)"
    unfolding r using reportedClonedCells_keyed_less [of _ cells] by auto
  have e: "(\<forall>cell\<in>set cells. tagged cell) \<longrightarrow> getNetworks (Some info) localData now = []"
    unfolding r by (simp add: all_tagged_no_keyed)
  from r l e show ?thesis by blast
qed

text \<open>
  An instance: the conductor reports the provisioned cell and two cloned cells, all in
  the tagged shape, and local storage holds a record for one of the two. The spec's
  \<open>list()\<close> has two networks to return; \<^verbatim>\<open>getNetworks\<close> returns none.
\<close>

theorem getNetworks_skips_tagged_cells_witness:
  "reportedClonedCells
     [TypeProvisioned,
      TypeCloned (ClonedCell ([1], [2]) (js ''remote'') (Some (js ''sharefeed-a-b-c-d-e''))),
      TypeCloned (ClonedCell ([3], [2]) [] None)]
     = [ClonedCell ([1], [2]) (js ''remote'') (Some (js ''sharefeed-a-b-c-d-e'')),
        ClonedCell ([3], [2]) [] None]
   \<and> getNetworks
        (Some [ROLE_NAME \<mapsto>
                 [TypeProvisioned,
                  TypeCloned (ClonedCell ([1], [2]) (js ''remote'') (Some (js ''sharefeed-a-b-c-d-e''))),
                  TypeCloned (ClonedCell ([3], [2]) [] None)]])
        [\<lparr>cellIdString = js ''uAw:uAg'', name = js ''Books'', passphrase = js ''v w x y z'',
          joinedAt = 5\<rparr>]
        9
     = []"
proof -
  define info :: AppInfo where
    "info = [ROLE_NAME \<mapsto>
               [TypeProvisioned,
                TypeCloned (ClonedCell ([1], [2]) (js ''remote'') (Some (js ''sharefeed-a-b-c-d-e''))),
                TypeCloned (ClonedCell ([3], [2]) [] None)]]"
  have cells: "(case info ROLE_NAME of None \<Rightarrow> [] | Some cs \<Rightarrow> cs)
                 = [TypeProvisioned,
                    TypeCloned (ClonedCell ([1], [2]) (js ''remote'') (Some (js ''sharefeed-a-b-c-d-e''))),
                    TypeCloned (ClonedCell ([3], [2]) [] None)]"
    by (simp add: info_def)
  have t: "\<forall>cell\<in>set [TypeProvisioned,
                    TypeCloned (ClonedCell ([1], [2]) (js ''remote'') (Some (js ''sharefeed-a-b-c-d-e''))),
                    TypeCloned (ClonedCell ([3], [2]) [] None)]. tagged cell"
    by simp
  note th = getNetworks_skips_tagged_cells
    [of info "[\<lparr>cellIdString = js ''uAw:uAg'', name = js ''Books'', passphrase = js ''v w x y z'',
                 joinedAt = 5\<rparr>]" 9, unfolded cells]
  from th t have "getNetworks (Some info)
        [\<lparr>cellIdString = js ''uAw:uAg'', name = js ''Books'', passphrase = js ''v w x y z'',
          joinedAt = 5\<rparr>] 9 = []"
    by blast
  then show ?thesis unfolding info_def by simp
qed

section \<open>Properties of the session\<close>

lemma cellIdToString_not_Nil: "cellIdToString c \<noteq> []"
  by (simp add: cellIdToString_def encodeHashToBase64_def js_def)

lemma nstore_switchNetwork [simp]: "nstore (switchNetwork k w) = nstore w"
  by (simp add: switchNetwork_def Let_def split: option.splits)

lemma nstore_settle [simp]: "nstore (settle i r w) = nstore w"
  by (simp add: settle_def Let_def)

lemma distinct_filter_le_one:
  "distinct (map f xs) \<Longrightarrow> length (filter (\<lambda>x. f x = a) xs) \<le> 1"
proof (induction xs)
  case Nil
  then show ?case by simp
next
  case (Cons x xs)
  show ?case
  proof (cases "f x = a")
    case True
    with Cons.prems have "\<forall>y\<in>set xs. f y \<noteq> a" by (metis distinct.simps(2) image_eqI list.simps(9) set_map)
    then have "filter (\<lambda>x. f x = a) xs = []" by (simp add: filter_empty_conv)
    with True show ?thesis by simp
  next
    case False
    with Cons show ?thesis by simp
  qed
qed

lemma filter_length_mono:
  "(\<And>x. x \<in> set xs \<Longrightarrow> P x \<Longrightarrow> Q x) \<Longrightarrow> length (filter P xs) \<le> length (filter Q xs)"
proof (induction xs)
  case Nil
  then show ?case by simp
next
  case (Cons x xs)
  then have "length (filter P xs) \<le> length (filter Q xs)" by simp
  with Cons.prems show ?case by auto
qed

text \<open>Marking the networks with the active id establishes the invariant.\<close>

lemma store_inv_marked:
  assumes wf: "\<forall>n\<in>set ns. cellIdString n = cellIdToString (cellId n)"
    and a: "a = None \<or> a = Some [] \<or> a \<in> (\<lambda>n. Some (cellIdString n)) ` set ns"
  shows "store_inv \<lparr>networks = map (\<lambda>n. n\<lparr>isActive := (Some (cellIdString n) = a)\<rparr>) ns,
                     activeNetworkId = a, loading = l, error = e\<rparr>"
  using wf a unfolding store_inv_def by (auto simp: image_iff)

lemma store_inv_cong:
  "networks s' = networks s \<Longrightarrow> activeNetworkId s' = activeNetworkId s
     \<Longrightarrow> store_inv s' = store_inv s"
  by (simp add: store_inv_def)

lemma store_inv_flags:
  "store_inv s \<Longrightarrow> store_inv (s\<lparr>loading := l, error := e\<rparr>)"
  "store_inv s \<Longrightarrow> store_inv (s\<lparr>error := e\<rparr>)"
  "store_inv s \<Longrightarrow> store_inv (s\<lparr>loading := l\<rparr>)"
  using store_inv_cong [of "s\<lparr>loading := l, error := e\<rparr>" s]
    store_inv_cong [of "s\<lparr>error := e\<rparr>" s]
    store_inv_cong [of "s\<lparr>loading := l\<rparr>" s]
  by simp_all

lemma store_inv_initial: "store_inv initialState"
  by (simp add: store_inv_def initialState_def)

lemma setActiveNetwork_Inr:
  assumes "setActiveNetwork msg k w = Inr w'"
  shows "(find (\<lambda>n. cellIdString n = k) (networks (nstore w)) = None \<and> w' = w)
         \<or> (find (\<lambda>n. cellIdString n = k) (networks (nstore w)) \<noteq> None
              \<and> shareFeedClient w = None
              \<and> w' = switchNetwork k
                         (w\<lparr>ls_active := Some k,
                            nstore := (nstore w)
                              \<lparr>activeNetworkId := Some k,
                               networks := map (\<lambda>n. n\<lparr>isActive := (cellIdString n = k)\<rparr>)
                                             (networks (nstore w))\<rparr>\<rparr>))"
  using assms
  by (auto simp: setActiveNetwork_def setCellId_def Let_def split: option.splits)

lemma store_inv_setActiveNetwork:
  assumes "store_inv (nstore w)" and "setActiveNetwork msg k w = Inr w'"
  shows "store_inv (nstore w')"
proof (cases "find (\<lambda>n. cellIdString n = k) (networks (nstore w))")
  case None
  with assms setActiveNetwork_Inr [OF assms(2)] show ?thesis by simp
next
  case (Some network)
  then have mem: "network \<in> set (networks (nstore w))" and id: "cellIdString network = k"
    by (auto simp: find_Some_iff)
  have wf: "\<forall>n\<in>set (networks (nstore w)). cellIdString n = cellIdToString (cellId n)"
    using assms(1) by (simp add: store_inv_def)
  have a: "Some k = None \<or> Some k = Some [] \<or> Some k \<in> (\<lambda>n. Some (cellIdString n)) ` set (networks (nstore w))"
    using mem id by auto
  from Some setActiveNetwork_Inr [OF assms(2)]
  have "nstore w'
          = \<lparr>networks = map (\<lambda>n. n\<lparr>isActive := (Some (cellIdString n) = Some k)\<rparr>) (networks (nstore w)),
             activeNetworkId = Some k, loading = loading (nstore w), error = error (nstore w)\<rparr>"
    by simp
  with store_inv_marked [OF wf a] show ?thesis by simp
qed

lemma store_inv_auto_switch:
  assumes "store_inv (nstore w)"
  shows "store_inv (nstore (case setActiveNetwork msg k w of Inl e \<Rightarrow> w | Inr w2 \<Rightarrow> w2))"
proof (cases "setActiveNetwork msg k w")
  case (Inl e)
  with assms show ?thesis by simp
next
  case (Inr w2)
  with store_inv_setActiveNetwork [OF assms Inr] show ?thesis by simp
qed

lemma getNetworks_wf:
  "\<forall>n\<in>set (getNetworks appInfo localData now). cellIdString n = cellIdToString (cellId n)"
proof (cases appInfo)
  case None
  then show ?thesis by (simp add: getNetworks_def)
next
  case (Some info)
  then show ?thesis by (auto simp: getNetworks_map mergeCloned_id)
qed

lemma truthy_None [simp]: "\<not> truthy None"
  by (simp add: truthy_def)

lemma init_rest_frame:
  "networks (nstore (case setCellId msg c cl of
                       Inl (TypeError m) \<Rightarrow> init_failed (Some m) w1
                     | Inr _ \<Rightarrow> switchNetwork k w1)) = networks (nstore w1)"
  "activeNetworkId (nstore (case setCellId msg c cl of
                       Inl (TypeError m) \<Rightarrow> init_failed (Some m) w1
                     | Inr _ \<Rightarrow> switchNetwork k w1)) = activeNetworkId (nstore w1)"
  by (cases cl; simp add: setCellId_def init_failed_def)+

lemma nstore_init_loaded:
  "networks (nstore (init_loaded msg appInfo now w)) =
     (let fetched = getNetworks appInfo (ls_networks w) now;
          stored = ls_active w;
          restored = (if truthy stored
                         \<and> find (\<lambda>n. Some (cellIdString n) = stored) fetched = None
                      then None else stored);
          activeId = (if \<not> truthy restored \<and> fetched \<noteq> []
                      then Some (cellIdString (hd fetched)) else restored)
      in map (\<lambda>n. n\<lparr>isActive := (Some (cellIdString n) = activeId)\<rparr>) fetched)"
  "activeNetworkId (nstore (init_loaded msg appInfo now w)) =
     (let fetched = getNetworks appInfo (ls_networks w) now;
          stored = ls_active w;
          restored = (if truthy stored
                         \<and> find (\<lambda>n. Some (cellIdString n) = stored) fetched = None
                      then None else stored)
      in if \<not> truthy restored \<and> fetched \<noteq> []
         then Some (cellIdString (hd fetched)) else restored)"
  unfolding init_loaded_def Let_def
  by (simp_all add: init_rest_frame split: option.split)

lemma store_inv_init_loaded: "store_inv (nstore (init_loaded msg appInfo now w))"
proof -
  define fetched where "fetched = getNetworks appInfo (ls_networks w) now"
  define restored where
    "restored = (if truthy (ls_active w) \<and> find (\<lambda>n. Some (cellIdString n) = ls_active w) fetched = None
                 then None else ls_active w)"
  define activeId where
    "activeId = (if \<not> truthy restored \<and> fetched \<noteq> [] then Some (cellIdString (hd fetched)) else restored)"
  have wf: "\<forall>n\<in>set fetched. cellIdString n = cellIdToString (cellId n)"
    unfolding fetched_def by (rule getNetworks_wf)
  have r: "restored = None \<or> restored = Some [] \<or> restored \<in> (\<lambda>n. Some (cellIdString n)) ` set fetched"
  proof (cases "truthy (ls_active w)")
    case True
    show ?thesis
    proof (cases "find (\<lambda>n. Some (cellIdString n) = ls_active w) fetched")
      case None
      with True show ?thesis by (simp add: restored_def)
    next
      case (Some n)
      then have "n \<in> set fetched" "Some (cellIdString n) = ls_active w"
        by (auto simp: find_Some_iff)
      with Some show ?thesis by (auto simp: restored_def)
    qed
  next
    case False
    then show ?thesis by (auto simp: restored_def truthy_def split: option.splits)
  qed
  have a: "activeId = None \<or> activeId = Some [] \<or> activeId \<in> (\<lambda>n. Some (cellIdString n)) ` set fetched"
  proof (cases "\<not> truthy restored \<and> fetched \<noteq> []")
    case True
    then have "hd fetched \<in> set fetched" by simp
    with True show ?thesis by (auto simp: activeId_def)
  next
    case False
    with r show ?thesis by (auto simp: activeId_def)
  qed
  have n: "networks (nstore (init_loaded msg appInfo now w))
             = map (\<lambda>n. n\<lparr>isActive := (Some (cellIdString n) = activeId)\<rparr>) fetched"
    by (simp only: nstore_init_loaded(1) Let_def activeId_def restored_def fetched_def)
  have i: "activeNetworkId (nstore (init_loaded msg appInfo now w)) = activeId"
    by (simp only: nstore_init_loaded(2) Let_def activeId_def restored_def fetched_def)
  have "store_inv (nstore (init_loaded msg appInfo now w))
          = store_inv \<lparr>networks = map (\<lambda>n. n\<lparr>isActive := (Some (cellIdString n) = activeId)\<rparr>) fetched,
                       activeNetworkId = activeId, loading = False, error = None\<rparr>"
    by (rule store_inv_cong) (simp_all add: n i)
  with store_inv_marked [OF wf a] show ?thesis by simp
qed

lemma store_inv_appended:
  assumes inv: "store_inv (nstore w)"
    and n: "cellIdString (fst answer) = cellIdToString (cellId (fst answer))" "\<not> isActive (fst answer)"
  shows "store_inv (nstore (appended answer w))"
proof -
  define ns where "ns = networks (nstore w)"
  define a where "a = activeNetworkId (nstore w)"
  define new where "new = fst answer"
  have wf: "\<forall>n\<in>set ns. cellIdString n = cellIdToString (cellId n)"
    and allowed: "a = None \<or> a = Some [] \<or> a \<in> (\<lambda>n. Some (cellIdString n)) ` set ns"
    and act1: "\<forall>n\<in>set ns. isActive n \<longrightarrow> Some (cellIdString n) = a"
    and act2: "distinct (map cellIdString ns) \<longrightarrow> (\<forall>n\<in>set ns. Some (cellIdString n) = a \<longrightarrow> isActive n)"
    using inv unfolding store_inv_def ns_def a_def by blast+
  have new_ne: "cellIdString new \<noteq> []"
    using n(1) cellIdToString_not_Nil [of "cellId new"] by (simp add: new_def)
  have 1: "\<forall>n\<in>set (ns @ [new]). cellIdString n = cellIdToString (cellId n)"
    using wf n(1) by (simp add: new_def)
  have 2: "a = None \<or> a = Some [] \<or> a \<in> (\<lambda>n. Some (cellIdString n)) ` set (ns @ [new])"
    using allowed by auto
  have 3: "\<forall>n\<in>set (ns @ [new]). isActive n \<longrightarrow> Some (cellIdString n) = a"
    using act1 n(2) by (simp add: new_def)
  have 4: "distinct (map cellIdString (ns @ [new]))
             \<longrightarrow> (\<forall>n\<in>set (ns @ [new]). Some (cellIdString n) = a \<longrightarrow> isActive n)"
  proof (intro impI ballI)
    fix m
    assume d: "distinct (map cellIdString (ns @ [new]))"
      and m: "m \<in> set (ns @ [new])" and ma: "Some (cellIdString m) = a"
    from d have d1: "distinct (map cellIdString ns)"
      and fresh: "cellIdString new \<notin> cellIdString ` set ns" by auto
    have "a \<noteq> Some (cellIdString new)"
    proof
      assume e: "a = Some (cellIdString new)"
      with allowed new_ne obtain x where "x \<in> set ns" "Some (cellIdString new) = Some (cellIdString x)"
        by auto
      with fresh show False by auto
    qed
    with m ma have "m \<in> set ns" by auto
    with act2 d1 ma show "isActive m" by blast
  qed
  have eq: "networks (nstore (appended answer w)) = ns @ [new]"
    "activeNetworkId (nstore (appended answer w)) = a"
    by (simp_all add: appended_def ns_def a_def new_def)
  show ?thesis unfolding store_inv_def eq using 1 2 3 4 by blast
qed

lemma newNetwork_wf:
  "cellIdString (newNetwork cid nm pass now) = cellIdToString (cellId (newNetwork cid nm pass now))"
  "\<not> isActive (newNetwork cid nm pass now)"
  by (simp_all add: newNetwork_def)

lemma leaveNetwork_disabled_throws:
  assumes "activeNetworkId (nstore w) = Some k" and "shareFeedClient w \<noteq> None"
  shows "nstore (leaveNetwork_disabled msg k network w) = (nstore w)\<lparr>error := Some msg\<rparr>"
  using assms unfolding leaveNetwork_disabled_def Let_def
  by (auto simp: setCellId_def leaveNetwork_failed_def message_or_def)

lemma nstore_leaveNetwork_disabled:
  assumes "activeNetworkId (nstore w) \<noteq> Some k \<or> shareFeedClient w = None"
  shows "nstore (leaveNetwork_disabled msg k network w) =
     (let remaining = filter (\<lambda>n. cellIdString n \<noteq> k) (networks (nstore w));
          newActiveId =
            (if activeNetworkId (nstore w) = Some k then
               (case remaining of
                  [] \<Rightarrow> None
                | n # _ \<Rightarrow> if cellIdString n = [] then None else Some (cellIdString n))
             else activeNetworkId (nstore w))
      in (nstore w)\<lparr>networks := map (\<lambda>n. n\<lparr>isActive := (Some (cellIdString n) = newActiveId)\<rparr>) remaining,
                    activeNetworkId := newActiveId\<rparr>)"
  using assms unfolding leaveNetwork_disabled_def Let_def
  by (auto simp: setCellId_def)

lemma store_inv_leaveNetwork_disabled:
  assumes inv: "store_inv (nstore w)"
  shows "store_inv (nstore (leaveNetwork_disabled msg k network w))"
proof (cases "activeNetworkId (nstore w) = Some k \<and> shareFeedClient w \<noteq> None")
  case True
  then show ?thesis using inv by (simp add: leaveNetwork_disabled_throws store_inv_flags)
next
  case other: False
  define ns where "ns = networks (nstore w)"
  define a where "a = activeNetworkId (nstore w)"
  define remaining where "remaining = filter (\<lambda>n. cellIdString n \<noteq> k) ns"
  define newActiveId where
    "newActiveId =
       (if a = Some k then
          (case remaining of
             [] \<Rightarrow> None
           | n # _ \<Rightarrow> if cellIdString n = [] then None else Some (cellIdString n))
        else a)"
  have wf0: "\<forall>n\<in>set ns. cellIdString n = cellIdToString (cellId n)"
    and allowed: "a = None \<or> a = Some [] \<or> a \<in> (\<lambda>n. Some (cellIdString n)) ` set ns"
    using inv unfolding store_inv_def ns_def a_def by blast+
  have wf: "\<forall>n\<in>set remaining. cellIdString n = cellIdToString (cellId n)"
    using wf0 by (simp add: remaining_def)
  have ok: "newActiveId = None \<or> newActiveId = Some []
              \<or> newActiveId \<in> (\<lambda>n. Some (cellIdString n)) ` set remaining"
  proof (cases "a = Some k")
    case True
    then show ?thesis by (cases remaining) (simp_all add: newActiveId_def)
  next
    case False
    then have na: "newActiveId = a" by (simp add: newActiveId_def)
    from allowed show ?thesis
    proof (elim disjE)
      assume "a \<in> (\<lambda>n. Some (cellIdString n)) ` set ns"
      then obtain x where x: "x \<in> set ns" "a = Some (cellIdString x)" by auto
      with False have "cellIdString x \<noteq> k" by auto
      with x have "x \<in> set remaining" by (simp add: remaining_def)
      with x na show ?thesis by auto
    qed (simp_all add: na)
  qed
  from other have o: "activeNetworkId (nstore w) \<noteq> Some k \<or> shareFeedClient w = None" by blast
  have "nstore (leaveNetwork_disabled msg k network w)
          = \<lparr>networks = map (\<lambda>n. n\<lparr>isActive := (Some (cellIdString n) = newActiveId)\<rparr>) remaining,
             activeNetworkId = newActiveId, loading = loading (nstore w), error = error (nstore w)\<rparr>"
    by (simp add: nstore_leaveNetwork_disabled [OF o] Let_def newActiveId_def remaining_def ns_def a_def)
  with store_inv_marked [OF wf ok] show ?thesis by simp
qed

lemma store_inv_updateName:
  assumes inv: "store_inv (nstore w)"
  shows "store_inv (nstore (updateName k nm w))"
proof -
  define f :: "Network \<Rightarrow> Network" where
    "f = (\<lambda>n. if cellIdString n = k then n\<lparr>name := nm\<rparr> else n)"
  define ns where "ns = networks (nstore w)"
  define a where "a = activeNetworkId (nstore w)"
  have f: "cellIdString (f n) = cellIdString n" "cellId (f n) = cellId n" "isActive (f n) = isActive n"
    for n by (simp_all add: f_def)
  have ids: "map cellIdString (map f ns) = map cellIdString ns"
    by (simp add: f(1))
  have wf: "\<forall>n\<in>set ns. cellIdString n = cellIdToString (cellId n)"
    and allowed: "a = None \<or> a = Some [] \<or> a \<in> (\<lambda>n. Some (cellIdString n)) ` set ns"
    and act1: "\<forall>n\<in>set ns. isActive n \<longrightarrow> Some (cellIdString n) = a"
    and act2: "distinct (map cellIdString ns) \<longrightarrow> (\<forall>n\<in>set ns. Some (cellIdString n) = a \<longrightarrow> isActive n)"
    using inv unfolding store_inv_def ns_def a_def by blast+
  have 1: "\<forall>n\<in>set (map f ns). cellIdString n = cellIdToString (cellId n)"
    using wf by (simp add: f)
  have 2: "a = None \<or> a = Some [] \<or> a \<in> (\<lambda>n. Some (cellIdString n)) ` set (map f ns)"
  proof -
    have "(\<lambda>n. Some (cellIdString n)) ` set (map f ns) = (\<lambda>n. Some (cellIdString n)) ` set ns"
      by (simp add: image_image f(1))
    with allowed show ?thesis by simp
  qed
  have 3: "\<forall>n\<in>set (map f ns). isActive n \<longrightarrow> Some (cellIdString n) = a"
    using act1 by (simp add: f)
  have 4: "distinct (map cellIdString (map f ns))
             \<longrightarrow> (\<forall>n\<in>set (map f ns). Some (cellIdString n) = a \<longrightarrow> isActive n)"
    unfolding ids using act2 by (simp add: f)
  have eq: "networks (nstore (updateName k nm w)) = map f ns"
    "activeNetworkId (nstore (updateName k nm w)) = a"
    by (simp_all add: updateName_def ns_def a_def f_def)
  show ?thesis unfolding store_inv_def eq using 1 2 3 4 by blast
qed

lemma reachable_store_inv: "reachable w \<Longrightarrow> store_inv (nstore w)"
proof (induction rule: reachable.induct)
  case (start w)
  then show ?case by (simp add: store_inv_initial)
next
  case (init_begin w)
  then show ?case by (simp add: init_begin_def store_inv_flags)
next
  case (init_loaded w msg appInfo now)
  show ?case by (rule store_inv_init_loaded)
next
  case (init_failed w err)
  then show ?case by (simp add: init_failed_def store_inv_flags)
next
  case (create_begin w)
  then show ?case by (simp add: create_begin_def store_inv_flags)
next
  case (create_appended w nm pass generated cid now)
  then show ?case
    by (intro store_inv_appended) (simp_all add: createNetworkApi_def Let_def newNetwork_wf)
next
  case (created w msg nm pass generated cid now)
  then show ?case
    unfolding createNetwork_created_def Let_def
    by (intro store_inv_auto_switch store_inv_appended)
       (simp_all add: createNetworkApi_def Let_def newNetwork_wf)
next
  case (create_failed w err fallback)
  then show ?case by (simp add: create_failed_def store_inv_flags)
next
  case (join_appended w pass' nm' cid now)
  then show ?case
    by (intro store_inv_appended) (simp_all add: joinNetworkApi_def Let_def newNetwork_wf)
next
  case (joined w msg pass' nm' cid now)
  then show ?case
    unfolding joinNetwork_joined_def Let_def
    by (intro store_inv_auto_switch store_inv_appended)
       (simp_all add: joinNetworkApi_def Let_def newNetwork_wf)
next
  case (setActiveNetwork w msg k w')
  then show ?case by (simp add: store_inv_setActiveNetwork)
next
  case (left w0 k network w msg)
  then show ?case by (simp add: store_inv_leaveNetwork_disabled)
next
  case (leave_failed w err)
  then show ?case by (simp add: leaveNetwork_failed_def store_inv_flags)
next
  case (updateName w k nm)
  then show ?case by (simp add: store_inv_updateName)
next
  case (reset w)
  then show ?case by (simp add: reset_def store_inv_initial)
next
  case (settle w i result)
  then show ?case by simp
qed

lemmas eval_store =
  createNetwork_created_def createNetworkApi_def appended_def setActiveNetwork_def
  setCellId_def newNetwork_def connected_session_def newShareFeedClient_def initialState_def
  str_or_def Let_def

lemma shareFeedClient_switchNetwork [simp]:
  "shareFeedClient (switchNetwork k w) = shareFeedClient w"
  and ls_active_switchNetwork [simp]: "ls_active (switchNetwork k w) = ls_active w"
  and ls_networks_switchNetwork [simp]: "ls_networks (switchNetwork k w) = ls_networks w"
  by (simp_all add: switchNetwork_def Let_def split: option.splits)

lemma target_switchNetwork [simp]: "target (switchNetwork k w) = target w"
  by (simp add: target_def)

lemma shareFeedClient_settle [simp]: "shareFeedClient (settle i r w) = shareFeedClient w"
  by (simp add: settle_def Let_def)

lemma target_settle [simp]: "target (settle i r w) = target w"
  by (simp add: target_def)

text \<open>What \<^verbatim>\<open>switchNetwork\<close> does when a client is there.\<close>

lemma switchNetwork_cached:
  assumes "s_client (sstore w) \<or> shareFeedClient w \<noteq> None"
    and "cache (sstore w) k = Some cached"
  shows "switchNetwork k w =
           w\<lparr>sstore := (sstore w)\<lparr>s_client := True, currentNetworkId := Some k,
                                  hasNetwork := True, s_error := None, shares := cached\<rparr>,
             inflight := inflight w @ [Fetch Background k (target w)]\<rparr>"
  using assms by (auto simp: switchNetwork_def Let_def)

lemma switchNetwork_uncached:
  assumes "s_client (sstore w) \<or> shareFeedClient w \<noteq> None"
    and "cache (sstore w) k = None"
  shows "switchNetwork k w =
           w\<lparr>sstore := (sstore w)\<lparr>s_client := True, currentNetworkId := Some k,
                                  hasNetwork := True, s_error := None, s_loading := True,
                                  shares := []\<rparr>,
             inflight := inflight w @ [Fetch Foreground k (target w)]\<rparr>"
  using assms by (auto simp: switchNetwork_def Let_def)

lemma switchNetwork_launches:
  assumes "s_client (sstore w) \<or> shareFeedClient w \<noteq> None"
  shows "\<exists>kd. inflight (switchNetwork k w) = inflight w @ [Fetch kd k (target w)]"
    and "currentNetworkId (sstore (switchNetwork k w)) = Some k"
    and "s_client (sstore (switchNetwork k w))"
    and "cache (sstore (switchNetwork k w)) = cache (sstore w)"
  using assms by (cases "cache (sstore w) k"; simp add: switchNetwork_cached switchNetwork_uncached)+

text \<open>The race rule, for either kind of fetch.\<close>

lemma fetch_done_shares:
  "shares (fetchAndCacheShares_done k (Fulfilled fetched) s)
     = (if currentNetworkId s = Some k then fetched else shares s)"
  "shares (refreshInBackground_done k (Fulfilled fetched) s)
     = (if currentNetworkId s = Some k then fetched else shares s)"
  "cache (fetchAndCacheShares_done k (Fulfilled fetched) s) = (cache s)(k \<mapsto> fetched)"
  "cache (refreshInBackground_done k (Fulfilled fetched) s) = (cache s)(k \<mapsto> fetched)"
  "currentNetworkId (fetchAndCacheShares_done k r s) = currentNetworkId s"
  "currentNetworkId (refreshInBackground_done k r s) = currentNetworkId s"
  by (simp_all add: fetchAndCacheShares_done_def refreshInBackground_done_def Let_def
        split: outcome.splits)

lemma settle_fulfilled:
  assumes "i < length (inflight w)" and "captured (inflight w ! i) = k"
  shows "shares (sstore (settle i (Fulfilled fetched) w))
           = (if currentNetworkId (sstore w) = Some k then fetched else shares (sstore w))"
    and "cache (sstore (settle i (Fulfilled fetched) w)) = (cache (sstore w))(k \<mapsto> fetched)"
    and "currentNetworkId (sstore (settle i r w)) = currentNetworkId (sstore w)"
    and "inflight (settle i r w) = take i (inflight w) @ drop (Suc i) (inflight w)"
  using assms by (simp_all add: settle_def Let_def fetch_done_shares split: fetch_kind.splits)

lemmas eval_shares =
  switchNetwork_def settle_def fetchAndCacheShares_done_def refreshInBackground_done_def
  connected_session_def target_def Let_def

section \<open>The per-partition cache\<close>

text \<open>
  Claim C1. When a fetch that \<^verbatim>\<open>fetchAndCacheShares\<close> or \<^verbatim>\<open>refreshInBackground\<close>
  launched for the network id \<open>k\<close> answers, its result becomes the live view only if
  the displayed id is still \<open>k\<close>; otherwise the live view stays as it is. Either way
  the result is stored in the cache under \<open>k\<close>. In particular, after
  \<^verbatim>\<open>switchNetwork(a)\<close> and at once \<^verbatim>\<open>switchNetwork(b)\<close>, with \<open>a\<close> and \<open>b\<close> different,
  the live view is what was fetched for \<open>b\<close> once both fetches have answered, in
  whichever order they answer.
\<close>

theorem race_rule:
  "(i < length (inflight w) \<and> captured (inflight w ! i) = k \<longrightarrow>
      shares (sstore (settle i (Fulfilled fetched) w))
        = (if currentNetworkId (sstore w) = Some k then fetched else shares (sstore w))
      \<and> cache (sstore (settle i (Fulfilled fetched) w)) = (cache (sstore w))(k \<mapsto> fetched))
   \<and> ((s_client (sstore w) \<or> shareFeedClient w \<noteq> None) \<and> a \<noteq> b \<longrightarrow>
        map captured (inflight (switchNetwork b (switchNetwork a w)))
          = map captured (inflight w) @ [a, b]
        \<and> shares (sstore (settle (length (inflight w)) (Fulfilled forB)
                     (settle (length (inflight w)) (Fulfilled forA)
                        (switchNetwork b (switchNetwork a w))))) = forB
        \<and> shares (sstore (settle (length (inflight w)) (Fulfilled forA)
                     (settle (Suc (length (inflight w))) (Fulfilled forB)
                        (switchNetwork b (switchNetwork a w))))) = forB)"
proof (intro conjI impI)
  assume "i < length (inflight w) \<and> captured (inflight w ! i) = k"
  then show "shares (sstore (settle i (Fulfilled fetched) w))
        = (if currentNetworkId (sstore w) = Some k then fetched else shares (sstore w))"
    and "cache (sstore (settle i (Fulfilled fetched) w)) = (cache (sstore w))(k \<mapsto> fetched)"
    by (simp_all add: settle_fulfilled)
next
  assume h: "(s_client (sstore w) \<or> shareFeedClient w \<noteq> None) \<and> a \<noteq> b"
  define n where "n = length (inflight w)"
  define w1 where "w1 = switchNetwork a w"
  define w2 where "w2 = switchNetwork b w1"
  from h have c1: "s_client (sstore w1)" unfolding w1_def by (simp add: switchNetwork_launches)
  from h obtain ka where f1: "inflight w1 = inflight w @ [Fetch ka a (target w)]"
    unfolding w1_def using switchNetwork_launches(1) [of w a] by auto
  from c1 obtain kb where
    f2: "inflight w2 = inflight w @ [Fetch ka a (target w), Fetch kb b (target w1)]"
    unfolding w2_def using switchNetwork_launches(1) [of w1 b] f1 by auto
  have cur: "currentNetworkId (sstore w2) = Some b"
    unfolding w2_def using c1 by (simp add: switchNetwork_launches)
  have ab: "Some b \<noteq> Some a" using h by auto
  have at_n: "inflight w2 ! n = Fetch ka a (target w)" "n < length (inflight w2)"
    and at_Sn: "inflight w2 ! Suc n = Fetch kb b (target w1)" "Suc n < length (inflight w2)"
    by (simp_all add: f2 n_def nth_append)
  have drop_n: "take n (inflight w2) @ drop (Suc n) (inflight w2)
                  = inflight w @ [Fetch kb b (target w1)]"
    and drop_Sn: "take (Suc n) (inflight w2) @ drop (Suc (Suc n)) (inflight w2)
                  = inflight w @ [Fetch ka a (target w)]"
    by (simp_all add: f2 n_def)
  show "map captured (inflight (switchNetwork b (switchNetwork a w)))
          = map captured (inflight w) @ [a, b]"
    using f2 by (simp add: w1_def w2_def)
  show "shares (sstore (settle (length (inflight w)) (Fulfilled forB)
                     (settle (length (inflight w)) (Fulfilled forA)
                        (switchNetwork b (switchNetwork a w))))) = forB"
  proof -
    define w3 where "w3 = settle n (Fulfilled forA) w2"
    have i3: "inflight w3 = inflight w @ [Fetch kb b (target w1)]"
      unfolding w3_def using at_n drop_n by (simp add: settle_fulfilled(4) [where k = a])
    have c3: "currentNetworkId (sstore w3) = Some b"
      unfolding w3_def using at_n cur by (simp add: settle_fulfilled(3) [where k = a])
    have "inflight w3 ! n = Fetch kb b (target w1)" "n < length (inflight w3)"
      by (simp_all add: i3 n_def)
    with c3 have "shares (sstore (settle n (Fulfilled forB) w3)) = forB"
      by (simp add: settle_fulfilled(1) [where k = b])
    then show ?thesis by (simp add: w3_def w2_def w1_def n_def)
  qed
  show "shares (sstore (settle (length (inflight w)) (Fulfilled forA)
                     (settle (Suc (length (inflight w))) (Fulfilled forB)
                        (switchNetwork b (switchNetwork a w))))) = forB"
  proof -
    define w3 where "w3 = settle (Suc n) (Fulfilled forB) w2"
    have i3: "inflight w3 = inflight w @ [Fetch ka a (target w)]"
      unfolding w3_def using at_Sn drop_Sn by (simp add: settle_fulfilled(4) [where k = b])
    have c3: "currentNetworkId (sstore w3) = Some b"
      unfolding w3_def using at_Sn cur by (simp add: settle_fulfilled(3) [where k = b])
    have s3: "shares (sstore w3) = forB"
      unfolding w3_def using at_Sn cur by (simp add: settle_fulfilled(1) [where k = b])
    have "inflight w3 ! n = Fetch ka a (target w)" "n < length (inflight w3)"
      by (simp_all add: i3 n_def)
    with c3 s3 ab have "shares (sstore (settle n (Fulfilled forA) w3)) = forB"
      by (simp add: settle_fulfilled(1) [where k = a])
    then show ?thesis by (simp add: w3_def w2_def w1_def n_def)
  qed
qed

text \<open>
  An instance: two uncached networks \<^verbatim>\<open>A\<close> and \<^verbatim>\<open>B\<close> selected one after the other in a
  fresh session. In both orders the view ends as the shares fetched for \<^verbatim>\<open>B\<close>; and
  when the fetch for \<^verbatim>\<open>A\<close> answers first, the view stays empty and the cache gets
  the entry for \<^verbatim>\<open>A\<close>.
\<close>

theorem race_rule_witness:
  "shares (sstore (settle 0 (Fulfilled [2])
             (settle 0 (Fulfilled [1])
                (switchNetwork (js ''B'') (switchNetwork (js ''A'') (connected_session :: nat world))))))
     = [2]
   \<and> shares (sstore (settle 0 (Fulfilled [1])
             (settle 1 (Fulfilled [2])
                (switchNetwork (js ''B'') (switchNetwork (js ''A'') (connected_session :: nat world))))))
     = [2]
   \<and> shares (sstore (settle 0 (Fulfilled [1])
                (switchNetwork (js ''B'') (switchNetwork (js ''A'') (connected_session :: nat world)))))
     = []
   \<and> cache (sstore (settle 0 (Fulfilled [1])
                (switchNetwork (js ''B'') (switchNetwork (js ''A'') (connected_session :: nat world)))))
        (js ''A'')
     = Some [1]"
proof -
  define w2 :: "nat world" where
    "w2 = switchNetwork (js ''B'') (switchNetwork (js ''A'') connected_session)"
  have ab: "js ''A'' \<noteq> js ''B''" by (simp add: js_def)
  have h2: "(s_client (sstore (connected_session :: nat world))
              \<or> shareFeedClient (connected_session :: nat world) \<noteq> None)
            \<and> js ''A'' \<noteq> js ''B''"
    using ab by (simp add: connected_session_def)
  have l0: "length (inflight (connected_session :: nat world)) = 0"
    by (simp add: connected_session_def)
  have h1: "0 < length (inflight w2) \<and> captured (inflight w2 ! 0) = js ''A''"
    using ab by (simp add: w2_def eval_shares)
  have cur: "currentNetworkId (sstore w2) = Some (js ''B'')" "shares (sstore w2) = []"
    "cache (sstore w2) = Map.empty"
    using ab by (simp_all add: w2_def eval_shares)
  from race_rule [of 0 "connected_session :: nat world" "js ''A''" "[1]" "js ''A''" "js ''B''"
         "[2]" "[1]"] h2
  have a: "shares (sstore (settle 0 (Fulfilled [2]) (settle 0 (Fulfilled [1]) w2))) = [2]
         \<and> shares (sstore (settle 0 (Fulfilled [1]) (settle 1 (Fulfilled [2]) w2))) = [2]"
    by (auto simp: l0 w2_def)
  from race_rule [of 0 w2 "js ''A''" "[1]" "js ''A''" "js ''B''" "[2]" "[1]"] h1
  have b: "shares (sstore (settle 0 (Fulfilled [1]) w2))
             = (if currentNetworkId (sstore w2) = Some (js ''A'') then [1] else shares (sstore w2))
         \<and> cache (sstore (settle 0 (Fulfilled [1]) w2)) = (cache (sstore w2))(js ''A'' \<mapsto> [1])"
    by blast
  from b cur ab have c: "shares (sstore (settle 0 (Fulfilled [1]) w2)) = []
    \<and> cache (sstore (settle 0 (Fulfilled [1]) w2)) (js ''A'') = Some [1]"
    by simp
  from a c show ?thesis unfolding w2_def by blast
qed

text \<open>
  Claim C3. For a network id with a cache entry, \<^verbatim>\<open>switchNetwork\<close> shows the cached
  entry before it suspends, leaves the loading flag as it is, clears the error and
  starts a background refresh. When that refresh fails, the shares store is left exactly
  as it was: no error is set and the view keeps the cached entry. However the refresh
  ends, the loading flag keeps the value it had before the switch.
\<close>

theorem cached_switch:
  assumes "cache (sstore w) k = Some cached"
    and "s_client (sstore w) \<or> shareFeedClient w \<noteq> None"
  shows "shares (sstore (switchNetwork k w)) = cached
   \<and> s_loading (sstore (switchNetwork k w)) = s_loading (sstore w)
   \<and> s_error (sstore (switchNetwork k w)) = None
   \<and> currentNetworkId (sstore (switchNetwork k w)) = Some k
   \<and> inflight (switchNetwork k w) = inflight w @ [Fetch Background k (target w)]
   \<and> sstore (settle (length (inflight w)) (Rejected err) (switchNetwork k w))
       = sstore (switchNetwork k w)
   \<and> s_loading (sstore (settle (length (inflight w)) result (switchNetwork k w)))
       = s_loading (sstore w)"
proof -
  note sw = switchNetwork_cached [OF assms(2) assms(1)]
  have bg: "s_loading (refreshInBackground_done k result s) = s_loading s" for s :: "'a SharesStore"
    by (simp add: refreshInBackground_done_def Let_def split: outcome.splits)
  have rej: "refreshInBackground_done k (Rejected err) s = s" for s :: "'a SharesStore"
    by (simp add: refreshInBackground_done_def)
  have 1: "sstore (settle (length (inflight w)) (Rejected err) (switchNetwork k w))
             = sstore (switchNetwork k w)"
    by (simp add: sw settle_def Let_def rej)
  have 2: "s_loading (sstore (settle (length (inflight w)) result (switchNetwork k w)))
             = s_loading (sstore w)"
    by (simp add: sw settle_def Let_def bg)
  have 3: "shares (sstore (switchNetwork k w)) = cached
     \<and> s_loading (sstore (switchNetwork k w)) = s_loading (sstore w)
     \<and> s_error (sstore (switchNetwork k w)) = None
     \<and> currentNetworkId (sstore (switchNetwork k w)) = Some k
     \<and> inflight (switchNetwork k w) = inflight w @ [Fetch Background k (target w)]"
    by (simp add: sw)
  from 1 2 3 show ?thesis by blast
qed

theorem cached_switch_witness:
  "shares (sstore (switchNetwork (js ''A'')
      ((connected_session :: nat world)
         \<lparr>sstore := (sstore connected_session)\<lparr>cache := [js ''A'' \<mapsto> [1, 2]], s_loading := False\<rparr>\<rparr>)))
     = [1, 2]
   \<and> s_loading (sstore (switchNetwork (js ''A'')
      ((connected_session :: nat world)
         \<lparr>sstore := (sstore connected_session)\<lparr>cache := [js ''A'' \<mapsto> [1, 2]], s_loading := False\<rparr>\<rparr>)))
     = False
   \<and> shares (sstore (settle 0 (Rejected None) (switchNetwork (js ''A'')
      ((connected_session :: nat world)
         \<lparr>sstore := (sstore connected_session)\<lparr>cache := [js ''A'' \<mapsto> [1, 2]], s_loading := False\<rparr>\<rparr>))))
     = [1, 2]
   \<and> s_error (sstore (settle 0 (Rejected None) (switchNetwork (js ''A'')
      ((connected_session :: nat world)
         \<lparr>sstore := (sstore connected_session)\<lparr>cache := [js ''A'' \<mapsto> [1, 2]], s_loading := False\<rparr>\<rparr>))))
     = None"
proof -
  define w :: "nat world" where
    "w = connected_session
           \<lparr>sstore := (sstore connected_session)\<lparr>cache := [js ''A'' \<mapsto> [1, 2]], s_loading := False\<rparr>\<rparr>"
  have h1: "cache (sstore w) (js ''A'') = Some [1, 2]" by (simp add: w_def)
  have h2: "s_client (sstore w) \<or> shareFeedClient w \<noteq> None"
    by (simp add: w_def connected_session_def)
  have l: "length (inflight w) = 0" "s_loading (sstore w) = False"
    by (simp_all add: w_def connected_session_def)
  from cached_switch [OF h1 h2, of None "Rejected None"] l
  have "shares (sstore (switchNetwork (js ''A'') w)) = [1, 2]
     \<and> s_loading (sstore (switchNetwork (js ''A'') w)) = False
     \<and> shares (sstore (settle 0 (Rejected None) (switchNetwork (js ''A'') w))) = [1, 2]
     \<and> s_error (sstore (settle 0 (Rejected None) (switchNetwork (js ''A'') w))) = None"
    by simp
  then show ?thesis unfolding w_def .
qed

section \<open>The active-partition selector\<close>

text \<open>The three sessions, evaluated.\<close>

lemma cellIdToString_12: "cellIdToString ([1], [2]) = js ''uAQ:uAg''"
  by (simp add: eval_b64)

lemma cellIdToString_32: "cellIdToString ([3], [2]) = js ''uAw:uAg''"
  by (simp add: eval_b64)

lemma ids_differ: "js ''uAQ:uAg'' \<noteq> js ''uAw:uAg''"
  by (simp add: js_def)

lemma reachable_connected_session: "reachable connected_session"
  by (rule reachable.start) (simp add: connected_session_def)

lemma appClient_created [simp]:
  "appClient (createNetwork_created msg nm pass generated cid now w) = appClient w"
  by (simp add: createNetwork_created_def setActiveNetwork_def setCellId_def appended_def
        switchNetwork_def Let_def split: option.splits)

lemma reachable_one_network_session: "reachable one_network_session"
  unfolding one_network_session_def
  by (rule reachable.created [OF reachable_connected_session]) (simp add: connected_session_def)

lemma reachable_two_networks_session: "reachable two_networks_session"
  unfolding two_networks_session_def
  by (intro reachable.init_loaded reachable.init_begin reachable.created
        reachable_one_network_session)
     (simp add: one_network_session_def connected_session_def)

lemma reachable_duplicate_report_session: "reachable duplicate_report_session"
  unfolding duplicate_report_session_def
  by (intro reachable.init_loaded reachable.init_begin reachable_connected_session)

lemma one_network_session_eq:
  "one_network_session =
     connected_session
       \<lparr>ls_networks := [\<lparr>cellIdString = js ''uAQ:uAg'', name = js ''Books'',
                          passphrase = js ''oak elm ash fir yew'', joinedAt = 5\<rparr>],
        nstore := \<lparr>networks = [newNetwork ([1], [2]) (js ''Books'') (js ''oak elm ash fir yew'') 5],
                   activeNetworkId = None, loading = False, error = None\<rparr>\<rparr>"
  by (simp add: one_network_session_def eval_store cellIdToString_12)

lemma two_created_eq:
  "createNetwork_created not_a_function (js ''Films'') None (js ''one two six ten elf'')
       ([3], [2]) 7 (one_network_session :: 'a world) =
     connected_session
       \<lparr>ls_networks := [\<lparr>cellIdString = js ''uAQ:uAg'', name = js ''Books'',
                          passphrase = js ''oak elm ash fir yew'', joinedAt = 5\<rparr>,
                        \<lparr>cellIdString = js ''uAw:uAg'', name = js ''Films'',
                          passphrase = js ''one two six ten elf'', joinedAt = 7\<rparr>],
        nstore := \<lparr>networks = [newNetwork ([1], [2]) (js ''Books'') (js ''oak elm ash fir yew'') 5,
                               newNetwork ([3], [2]) (js ''Films'') (js ''one two six ten elf'') 7],
                   activeNetworkId = None, loading = False, error = None\<rparr>\<rparr>"
  using ids_differ
  by (simp add: one_network_session_eq eval_store cellIdToString_12 cellIdToString_32)

lemma two_networks_session_eq:
  "two_networks_session =
     connected_session
       \<lparr>ls_networks := [\<lparr>cellIdString = js ''uAQ:uAg'', name = js ''Books'',
                          passphrase = js ''oak elm ash fir yew'', joinedAt = 5\<rparr>,
                        \<lparr>cellIdString = js ''uAw:uAg'', name = js ''Films'',
                          passphrase = js ''one two six ten elf'', joinedAt = 7\<rparr>],
        nstore := \<lparr>networks = [(newNetwork ([1], [2]) (js ''Books'') (js ''oak elm ash fir yew'') 5)
                                  \<lparr>isActive := True\<rparr>,
                               newNetwork ([3], [2]) (js ''Films'') (js ''one two six ten elf'') 7],
                   activeNetworkId = Some (js ''uAQ:uAg''), loading = False,
                   error = Some not_a_function\<rparr>\<rparr>"
  using ids_differ
  apply (simp add: two_networks_session_def two_created_eq)
  apply (simp add: init_loaded_def init_begin_def getNetworks_def mergeCloned_def
      cellIdToString_12 cellIdToString_32 connected_session_def newShareFeedClient_def
      setCellId_def init_failed_def message_or_def truthy_def str_or_def newNetwork_def
      initialState_def Let_def)
  apply (simp add: js_def)
  done

lemma duplicate_report_session_eq:
  "duplicate_report_session =
     connected_session
       \<lparr>nstore := \<lparr>networks = [(newNetwork ([1], [2]) (js ''Books'') [] 9)\<lparr>isActive := True\<rparr>,
                               (newNetwork ([1], [2]) (js ''Books'') [] 9)\<lparr>isActive := True\<rparr>],
                   activeNetworkId = Some (js ''uAQ:uAg''), loading = False,
                   error = Some not_a_function\<rparr>\<rparr>"
  apply (simp add: duplicate_report_session_def)
  apply (simp add: init_loaded_def init_begin_def getNetworks_def mergeCloned_def
      cellIdToString_12 connected_session_def newShareFeedClient_def
      setCellId_def init_failed_def message_or_def truthy_def str_or_def newNetwork_def
      initialState_def Let_def)
  apply (simp add: js_def)
  done

text \<open>
  Claim C4 does not hold of the code. \<^verbatim>\<open>setActiveNetwork\<close> starts by calling
  \<^verbatim>\<open>client?.setCellId(network.cellId)\<close>, and \<^verbatim>\<open>ShareFeedClient\<close> has no such member. So for
  a network id \<open>k\<close> of the sequence and a connected client the call throws, and
  \<^verbatim>\<open>setActiveNetwork(k)\<close> is rejected with the \<^verbatim>\<open>TypeError\<close> before it has stored \<open>k\<close> as
  the last-active value, updated the store or called \<^verbatim>\<open>switchNetwork\<close>: no state
  follows from it. And the request of a domain call names the cell by the client's role
  name, whichever network is active.
\<close>

theorem setActiveNetwork_throws:
  assumes "find (\<lambda>n. cellIdString n = k) (networks (nstore w)) = Some network"
    and "shareFeedClient w = Some this"
  shows "setActiveNetwork msg k w = Inl (TypeError msg)
   \<and> (\<forall>w'. setActiveNetwork msg k w \<noteq> Inr w')
   \<and> target w = Some \<lparr>role_name = roleName this, zome_name = zomeName this,
                        fn_name = js ''get_recent_shares''\<rparr>"
  using assms
  by (simp add: setActiveNetwork_def setCellId_def target_def getRecentShares_def callZome_def)

text \<open>
  An instance: in the session that has created the network \<^verbatim>\<open>Books\<close>, the auto-switch of
  \<^verbatim>\<open>createNetwork\<close> has left the network inactive and nothing stored as last active;
  selecting the network by hand is rejected as well; and a domain call goes to the role
  \<^verbatim>\<open>sharefeed\<close>.
\<close>

theorem setActiveNetwork_throws_witness:
  "map cellIdString (networks (nstore (one_network_session :: unit world))) = [js ''uAQ:uAg'']
   \<and> map isActive (networks (nstore (one_network_session :: unit world))) = [False]
   \<and> activeNetworkId (nstore (one_network_session :: unit world)) = None
   \<and> ls_active (one_network_session :: unit world) = None
   \<and> setActiveNetwork not_a_function (js ''uAQ:uAg'') (one_network_session :: unit world)
        = Inl (TypeError not_a_function)
   \<and> target (one_network_session :: unit world)
        = Some \<lparr>role_name = js ''sharefeed'', zome_name = js ''sharefeed'',
                 fn_name = js ''get_recent_shares''\<rparr>"
proof -
  have f: "find (\<lambda>n. cellIdString n = js ''uAQ:uAg'')
             (networks (nstore (one_network_session :: unit world)))
           = Some (newNetwork ([1], [2]) (js ''Books'') (js ''oak elm ash fir yew'') 5)"
    by (simp add: one_network_session_eq connected_session_def newNetwork_def cellIdToString_12)
  have c: "shareFeedClient (one_network_session :: unit world) = Some newShareFeedClient"
    by (simp add: one_network_session_eq connected_session_def)
  have s: "map cellIdString (networks (nstore (one_network_session :: unit world))) = [js ''uAQ:uAg'']"
    "map isActive (networks (nstore (one_network_session :: unit world))) = [False]"
    "activeNetworkId (nstore (one_network_session :: unit world)) = None"
    "ls_active (one_network_session :: unit world) = None"
    by (simp_all add: one_network_session_eq connected_session_def newNetwork_def cellIdToString_12)
  from setActiveNetwork_throws [OF f c, of not_a_function] s
  show ?thesis by (simp add: newShareFeedClient_def ROLE_NAME_def ZOME_NAME_def)
qed

text \<open>
  Claim C5 does not hold of the code. When the active network is left with a connected
  client and the conductor has disabled its clone, the local record of the network is
  removed and the last-active value becomes the id of the first network that remains,
  or the empty string. But then the callback of \<^verbatim>\<open>_state.update\<close> calls
  \<^verbatim>\<open>client?.setCellId\<close>, which throws: the store keeps the left network in its sequence
  and its id as \<^verbatim>\<open>activeNetworkId\<close>, and only gets the message of the \<^verbatim>\<open>TypeError\<close> as
  its error.
\<close>

theorem leaveNetwork_active_throws:
  assumes "activeNetworkId (nstore w) = Some k"
    and "shareFeedClient w = Some this"
  shows "networks (nstore (leaveNetwork_disabled msg k network w)) = networks (nstore w)
   \<and> activeNetworkId (nstore (leaveNetwork_disabled msg k network w)) = Some k
   \<and> error (nstore (leaveNetwork_disabled msg k network w)) = Some msg
   \<and> ls_networks (leaveNetwork_disabled msg k network w)
       = removeNetworkLocally (cellIdToString (cellId network)) (ls_networks w)
   \<and> ls_active (leaveNetwork_disabled msg k network w)
       = Some (case filter (\<lambda>n. cellIdString n \<noteq> k) (networks (nstore w)) of
                 [] \<Rightarrow> [] | n # _ \<Rightarrow> cellIdString n)"
proof -
  have c: "shareFeedClient w \<noteq> None" using assms(2) by simp
  note n = leaveNetwork_disabled_throws [OF assms(1) c, of msg network]
  have 1: "networks (nstore (leaveNetwork_disabled msg k network w)) = networks (nstore w)"
    and 2: "activeNetworkId (nstore (leaveNetwork_disabled msg k network w)) = Some k"
    and 3: "error (nstore (leaveNetwork_disabled msg k network w)) = Some msg"
    using assms(1) by (simp_all add: n)
  have 4: "ls_networks (leaveNetwork_disabled msg k network w)
       = removeNetworkLocally (cellIdToString (cellId network)) (ls_networks w)"
    using assms unfolding leaveNetwork_disabled_def Let_def
    by (simp add: setCellId_def leaveNetwork_failed_def)
  have 5: "ls_active (leaveNetwork_disabled msg k network w)
       = Some (case filter (\<lambda>n. cellIdString n \<noteq> k) (networks (nstore w)) of
                 [] \<Rightarrow> [] | n # _ \<Rightarrow> cellIdString n)"
    using assms unfolding leaveNetwork_disabled_def Let_def
    by (simp add: setCellId_def leaveNetwork_failed_def split: list.splits)
  from 1 2 3 4 5 show ?thesis by blast
qed

text \<open>
  An instance: in the session with the networks \<^verbatim>\<open>Books\<close> and \<^verbatim>\<open>Films\<close>, of which
  \<^verbatim>\<open>Books\<close> is active, \<^verbatim>\<open>Books\<close> is left. Its local record is removed and the id of
  \<^verbatim>\<open>Films\<close> is stored as last active, but the store still holds both networks with
  \<^verbatim>\<open>Books\<close> as the active one.
\<close>

theorem leaveNetwork_active_throws_witness:
  "leaveNetwork_request (js ''uAQ:uAg'') (two_networks_session :: unit world)
     = Some ((newNetwork ([1], [2]) (js ''Books'') (js ''oak elm ash fir yew'') 5)\<lparr>isActive := True\<rparr>)
   \<and> map cellIdString (networks (nstore (two_networks_session :: unit world)))
        = [js ''uAQ:uAg'', js ''uAw:uAg'']
   \<and> map cellIdString (ls_networks (two_networks_session :: unit world))
        = [js ''uAQ:uAg'', js ''uAw:uAg'']
   \<and> map cellIdString (networks (nstore
        (leaveNetwork_disabled not_a_function (js ''uAQ:uAg'')
           ((newNetwork ([1], [2]) (js ''Books'') (js ''oak elm ash fir yew'') 5)\<lparr>isActive := True\<rparr>)
           (two_networks_session :: unit world))))
        = [js ''uAQ:uAg'', js ''uAw:uAg'']
   \<and> activeNetworkId (nstore
        (leaveNetwork_disabled not_a_function (js ''uAQ:uAg'')
           ((newNetwork ([1], [2]) (js ''Books'') (js ''oak elm ash fir yew'') 5)\<lparr>isActive := True\<rparr>)
           (two_networks_session :: unit world)))
        = Some (js ''uAQ:uAg'')
   \<and> error (nstore
        (leaveNetwork_disabled not_a_function (js ''uAQ:uAg'')
           ((newNetwork ([1], [2]) (js ''Books'') (js ''oak elm ash fir yew'') 5)\<lparr>isActive := True\<rparr>)
           (two_networks_session :: unit world)))
        = Some not_a_function
   \<and> map cellIdString (ls_networks
        (leaveNetwork_disabled not_a_function (js ''uAQ:uAg'')
           ((newNetwork ([1], [2]) (js ''Books'') (js ''oak elm ash fir yew'') 5)\<lparr>isActive := True\<rparr>)
           (two_networks_session :: unit world)))
        = [js ''uAw:uAg'']
   \<and> ls_active
        (leaveNetwork_disabled not_a_function (js ''uAQ:uAg'')
           ((newNetwork ([1], [2]) (js ''Books'') (js ''oak elm ash fir yew'') 5)\<lparr>isActive := True\<rparr>)
           (two_networks_session :: unit world))
        = Some (js ''uAw:uAg'')"
proof -
  define w :: "unit world" where "w = two_networks_session"
  define books where
    "books = (newNetwork ([1], [2]) (js ''Books'') (js ''oak elm ash fir yew'') 5)\<lparr>isActive := True\<rparr>"
  have a: "activeNetworkId (nstore w) = Some (js ''uAQ:uAg'')"
    and c: "shareFeedClient w = Some newShareFeedClient"
    by (simp_all add: w_def two_networks_session_eq connected_session_def)
  have ns: "networks (nstore w)
              = [books, newNetwork ([3], [2]) (js ''Films'') (js ''one two six ten elf'') 7]"
    by (simp add: w_def books_def two_networks_session_eq connected_session_def)
  have ids: "map cellIdString (networks (nstore w)) = [js ''uAQ:uAg'', js ''uAw:uAg'']"
    by (simp add: ns books_def newNetwork_def cellIdToString_12 cellIdToString_32)
  have ls: "ls_networks w
              = [\<lparr>cellIdString = js ''uAQ:uAg'', name = js ''Books'',
                  passphrase = js ''oak elm ash fir yew'', joinedAt = 5\<rparr>,
                 \<lparr>cellIdString = js ''uAw:uAg'', name = js ''Films'',
                  passphrase = js ''one two six ten elf'', joinedAt = 7\<rparr>]"
    by (simp add: w_def two_networks_session_eq connected_session_def)
  have req: "leaveNetwork_request (js ''uAQ:uAg'') w = Some books"
    by (simp add: leaveNetwork_request_def ns books_def newNetwork_def cellIdToString_12)
       (simp add: w_def two_networks_session_eq connected_session_def)
  have key: "cellIdToString (cellId books) = js ''uAQ:uAg''"
    by (simp add: books_def newNetwork_def cellIdToString_12)
  have rem: "filter (\<lambda>n. cellIdString n \<noteq> js ''uAQ:uAg'') (networks (nstore w))
               = [newNetwork ([3], [2]) (js ''Films'') (js ''one two six ten elf'') 7]"
    using ids_differ
    by (simp add: ns books_def newNetwork_def cellIdToString_12 cellIdToString_32)
  have gone: "removeNetworkLocally (js ''uAQ:uAg'') (ls_networks w)
                = [\<lparr>cellIdString = js ''uAw:uAg'', name = js ''Films'',
                    passphrase = js ''one two six ten elf'', joinedAt = 7\<rparr>]"
    using ids_differ by (simp add: ls removeNetworkLocally_def)
  from leaveNetwork_active_throws [OF a c, of not_a_function books]
  have "map cellIdString (networks (nstore (leaveNetwork_disabled not_a_function (js ''uAQ:uAg'') books w)))
          = [js ''uAQ:uAg'', js ''uAw:uAg'']
     \<and> activeNetworkId (nstore (leaveNetwork_disabled not_a_function (js ''uAQ:uAg'') books w))
          = Some (js ''uAQ:uAg'')
     \<and> error (nstore (leaveNetwork_disabled not_a_function (js ''uAQ:uAg'') books w))
          = Some not_a_function
     \<and> map cellIdString (ls_networks (leaveNetwork_disabled not_a_function (js ''uAQ:uAg'') books w))
          = [js ''uAw:uAg'']
     \<and> ls_active (leaveNetwork_disabled not_a_function (js ''uAQ:uAg'') books w)
          = Some (js ''uAw:uAg'')"
    by (simp add: ids key gone rem) (simp add: newNetwork_def cellIdToString_32)
  with req ids ls show ?thesis unfolding w_def books_def by simp
qed

text \<open>
  Claim C8, as the spec states it, fails when the conductor reports one cloned cell
  twice: \<^verbatim>\<open>init\<close> sets a sequence with two networks of the same id, and marks both
  active.
\<close>

theorem duplicate_report_counterexample:
  "reachable (duplicate_report_session :: unit world)
   \<and> map cellIdString (networks (nstore (duplicate_report_session :: unit world)))
       = [js ''uAQ:uAg'', js ''uAQ:uAg'']
   \<and> activeNetworkId (nstore (duplicate_report_session :: unit world)) = Some (js ''uAQ:uAg'')
   \<and> map isActive (networks (nstore (duplicate_report_session :: unit world))) = [True, True]
   \<and> length (filter isActive (networks (nstore (duplicate_report_session :: unit world)))) = 2"
  using reachable_duplicate_report_session [where ?'a = unit]
  by (simp add: duplicate_report_session_eq connected_session_def newNetwork_def cellIdToString_12)

text \<open>
  Claim C8, amended. In every reachable state in which no two networks of the sequence
  have the same \<^verbatim>\<open>cellIdString\<close>, at most one network has \<^verbatim>\<open>isActive\<close> set, and a
  network has \<^verbatim>\<open>isActive\<close> set exactly when its \<^verbatim>\<open>cellIdString\<close> is
  \<^verbatim>\<open>activeNetworkId\<close>.
\<close>

theorem one_active_network:
  assumes "reachable w"
    and "distinct (map cellIdString (networks (nstore w)))"
  shows "length (filter isActive (networks (nstore w))) \<le> 1
         \<and> (\<forall>n\<in>set (networks (nstore w)).
               isActive n \<longleftrightarrow> Some (cellIdString n) = activeNetworkId (nstore w))"
proof -
  let ?s = "nstore w"
  from assms(1) have inv: "store_inv ?s" by (rule reachable_store_inv)
  have iff: "\<forall>n\<in>set (networks ?s). isActive n \<longleftrightarrow> Some (cellIdString n) = activeNetworkId ?s"
    using inv assms(2) unfolding store_inv_def by blast
  show ?thesis
  proof (cases "activeNetworkId ?s")
    case None
    with iff have "filter isActive (networks ?s) = []" by (simp add: filter_empty_conv)
    with iff show ?thesis by simp
  next
    case (Some a)
    have "length (filter isActive (networks ?s)) \<le> length (filter (\<lambda>n. cellIdString n = a) (networks ?s))"
      using iff Some by (intro filter_length_mono) auto
    also have "\<dots> \<le> 1" using assms(2) by (rule distinct_filter_le_one)
    finally show ?thesis using iff by simp
  qed
qed

theorem one_active_network_witness:
  "reachable (two_networks_session :: unit world)
   \<and> map cellIdString (networks (nstore (two_networks_session :: unit world)))
       = [js ''uAQ:uAg'', js ''uAw:uAg'']
   \<and> activeNetworkId (nstore (two_networks_session :: unit world)) = Some (js ''uAQ:uAg'')
   \<and> map isActive (networks (nstore (two_networks_session :: unit world))) = [True, False]
   \<and> length (filter isActive (networks (nstore (two_networks_session :: unit world)))) \<le> 1"
proof -
  have r: "reachable (two_networks_session :: unit world)"
    by (rule reachable_two_networks_session)
  have ids: "map cellIdString (networks (nstore (two_networks_session :: unit world)))
               = [js ''uAQ:uAg'', js ''uAw:uAg'']"
    and a: "activeNetworkId (nstore (two_networks_session :: unit world)) = Some (js ''uAQ:uAg'')"
    and m: "map isActive (networks (nstore (two_networks_session :: unit world))) = [True, False]"
    by (simp_all add: two_networks_session_eq connected_session_def newNetwork_def
          cellIdToString_12 cellIdToString_32)
  have d: "distinct (map cellIdString (networks (nstore (two_networks_session :: unit world))))"
    unfolding ids using ids_differ by simp
  from one_active_network [OF r d] r ids a m show ?thesis by blast
qed

end
